theory Spec2Isabelle
  imports Main "HOL-Library.Word"
begin

section \<open>JavaScript strings\<close>

text \<open>
  A JavaScript string is a sequence of 16-bit code units. \<open>charCodeAt\<close> reads one code
  unit, \<open>String.fromCharCode\<close> builds one (wrapping modulo \<open>2 ^ 16\<close>), and the value
  NaN that \<open>charCodeAt\<close> and \<open>parseInt\<close> return is \<open>None\<close>.
  The literal helper \<open>js\<close> writes an ASCII literal as code units.
\<close>

type_synonym jsstring = "16 word list"

definition js :: "string \<Rightarrow> jsstring" where
  "js s = map (\<lambda>c. of_nat (of_char c)) s"

definition fromCharCode :: "nat \<Rightarrow> 16 word" where
  "fromCharCode n = of_nat n"

definition charCodeAt0 :: "jsstring \<Rightarrow> nat option" where
  "charCodeAt0 s = (case s of [] \<Rightarrow> None | c # _ \<Rightarrow> Some (unat c))"

text \<open>\<open>pos.substring(1)\<close>: everything after the first code unit.\<close>

definition substring1 :: "jsstring \<Rightarrow> jsstring" where
  "substring1 s = drop 1 s"

text \<open>Decimal rendering of a non-negative integer, as a template literal renders it.\<close>

fun numberToString :: "nat \<Rightarrow> jsstring" where
  "numberToString n =
     (if n < 10 then [fromCharCode (48 + n)]
      else numberToString (n div 10) @ [fromCharCode (48 + n mod 10)])"

declare numberToString.simps [simp del]

text \<open>
  \<open>parseInt(s)\<close> with no radix: leading white space is skipped, one sign is read, a
  \<open>0x\<close>/\<open>0X\<close> prefix selects radix 16, and the longest prefix of digits is the value;
  no digit at all gives NaN. Values are exact integers here; the source rounds a value
  beyond \<open>2 ^ 53\<close> to a double, which stays beyond any board.
\<close>

definition isStrWhiteSpaceChar :: "16 word \<Rightarrow> bool" where
  "isStrWhiteSpaceChar c =
     (c \<in> set [9, 10, 11, 12, 13, 32, 160, 5760, 8192, 8193, 8194, 8195, 8196, 8197,
                8198, 8199, 8200, 8201, 8202, 8232, 8233, 8239, 8287, 12288, 65279])"

definition digitValue :: "nat \<Rightarrow> 16 word \<Rightarrow> nat option" where
  "digitValue radix c =
     (let u = unat c;
          v = (if 48 \<le> u \<and> u \<le> 57 then Some (u - 48)
               else if 97 \<le> u \<and> u \<le> 122 then Some (u - 87)
               else if 65 \<le> u \<and> u \<le> 90 then Some (u - 55)
               else None)
      in case v of None \<Rightarrow> None | Some d \<Rightarrow> if d < radix then Some d else None)"

definition digitsValue :: "nat \<Rightarrow> jsstring \<Rightarrow> nat" where
  "digitsValue radix z =
     foldl (\<lambda>acc c. acc * radix + (case digitValue radix c of None \<Rightarrow> 0 | Some d \<Rightarrow> d)) 0 z"

definition parseInt :: "jsstring \<Rightarrow> int option" where
  "parseInt inputString =
     (let s = dropWhile isStrWhiteSpaceChar inputString;
          sign = (case s of [] \<Rightarrow> 1 | c # _ \<Rightarrow> if c = 45 then - 1 else (1::int));
          s1 = (case s of [] \<Rightarrow> s | c # r \<Rightarrow> if c = 43 \<or> c = 45 then r else s);
          hex = (case s1 of a # b # _ \<Rightarrow> a = 48 \<and> (b = 120 \<or> b = 88) | _ \<Rightarrow> False);
          radix = (if hex then 16 else 10);
          s2 = (if hex then drop 2 s1 else s1);
          z = takeWhile (\<lambda>c. digitValue radix c \<noteq> None) s2
      in if z = [] then None else Some (sign * int (digitsValue radix z)))"

section \<open>Board geometry (client/src/lib/utils)\<close>

text \<open>
  \<open>createPositionGrid\<close>: the labels of an N x N board in row-major order, the row as
  a letter from \<open>A\<close> and the column as a 1-based number.
\<close>

definition positionLabel :: "nat \<Rightarrow> nat \<Rightarrow> jsstring" where
  "positionLabel row col = fromCharCode (65 + row) # numberToString (col + 1)"

definition createPositionGrid :: "nat \<Rightarrow> jsstring list" where
  "createPositionGrid n =
     concat (map (\<lambda>row. map (\<lambda>col. positionLabel row col) [0..<n]) [0..<n])"

text \<open>
  \<open>checkBingoPattern\<close>. The board is an array of \<open>boardSize\<close> rows of \<open>boardSize\<close>
  booleans. The board size is a natural number: the games' sizes are validated integers
  from 3 to 6. A label is marked on the board only when both its row and its column are
  inside the board; NaN fails every comparison.
\<close>

definition newBoard :: "nat \<Rightarrow> bool list list" where
  "newBoard boardSize = replicate boardSize (replicate boardSize False)"

definition markPosition :: "nat \<Rightarrow> bool list list \<Rightarrow> jsstring \<Rightarrow> bool list list" where
  "markPosition boardSize board pos =
     (case (charCodeAt0 pos, parseInt (substring1 pos)) of
        (Some code, Some k) \<Rightarrow>
          (let row = int code - 65; col = k - 1
           in if row \<ge> 0 \<and> row < int boardSize \<and> col \<ge> 0 \<and> col < int boardSize
              then board[nat row := (board ! nat row)[nat col := True]]
              else board)
      | _ \<Rightarrow> board)"

definition checkBingoPattern :: "jsstring list \<Rightarrow> nat \<Rightarrow> jsstring list option" where
  "checkBingoPattern markedPositions boardSize =
     (let board = foldl (markPosition boardSize) (newBoard boardSize) markedPositions
      in case find (\<lambda>i. list_all (\<lambda>cell. cell) (board ! i)) [0..<boardSize] of
           Some i \<Rightarrow>
             Some (map (\<lambda>j. fromCharCode (65 + i) # numberToString (j + 1)) [0..<boardSize])
         | None \<Rightarrow>
        (case find (\<lambda>j. list_all (\<lambda>row. row ! j) board) [0..<boardSize] of
           Some j \<Rightarrow>
             Some (map (\<lambda>i. fromCharCode (65 + i) # numberToString (j + 1)) [0..<boardSize])
         | None \<Rightarrow>
        if list_all (\<lambda>i. board ! i ! i) [0..<boardSize]
        then Some (map (\<lambda>i. fromCharCode (65 + i) # numberToString (i + 1)) [0..<boardSize])
        else if list_all (\<lambda>i. board ! i ! (boardSize - 1 - i)) [0..<boardSize]
        then Some (map (\<lambda>i. fromCharCode (65 + i) # numberToString (boardSize - i))
                     [0..<boardSize])
        else None))"

subsection \<open>The specification's win detection\<close>

text \<open>
  The cell a label denotes when it lies inside the board, the cells marked by a list of
  labels, and the lines of a board in the order of the specification: rows from the top,
  columns from the left, the main diagonal, the anti-diagonal. \<open>detectWinPattern\<close>
  returns the labels of the first line all of whose cells are marked.
\<close>

definition inRangeCell :: "nat \<Rightarrow> jsstring \<Rightarrow> (nat \<times> nat) option" where
  "inRangeCell boardSize pos =
     (case (charCodeAt0 pos, parseInt (substring1 pos)) of
        (Some code, Some k) \<Rightarrow>
          if 65 \<le> code \<and> code < 65 + boardSize \<and> 1 \<le> k \<and> k < 1 + int boardSize
          then Some (code - 65, nat (k - 1)) else None
      | _ \<Rightarrow> None)"

definition markedCells :: "jsstring list \<Rightarrow> nat \<Rightarrow> (nat \<times> nat) list" where
  "markedCells markedPositions boardSize = List.map_filter (inRangeCell boardSize) markedPositions"

definition winLines :: "nat \<Rightarrow> (nat \<times> nat) list list" where
  "winLines n =
     map (\<lambda>i. map (\<lambda>j. (i, j)) [0..<n]) [0..<n] @
     map (\<lambda>j. map (\<lambda>i. (i, j)) [0..<n]) [0..<n] @
     [map (\<lambda>i. (i, i)) [0..<n], map (\<lambda>i. (i, n - 1 - i)) [0..<n]]"

definition lineComplete :: "(nat \<times> nat) list \<Rightarrow> (nat \<times> nat) list \<Rightarrow> bool" where
  "lineComplete marked line = list_all (\<lambda>c. c \<in> set marked) line"

definition detectWinPattern :: "jsstring list \<Rightarrow> nat \<Rightarrow> jsstring list option" where
  "detectWinPattern markedPositions n =
     map_option (map (\<lambda>(i, j). positionLabel i j))
       (find (lineComplete (markedCells markedPositions n)) (winLines n))"

definition positionInRange :: "nat \<Rightarrow> jsstring \<Rightarrow> bool" where
  "positionInRange boardSize pos = (inRangeCell boardSize pos \<noteq> None)"

text \<open>A board of the right shape: \<open>n\<close> rows of \<open>n\<close> cells.\<close>

definition wf_board :: "nat \<Rightarrow> bool list list \<Rightarrow> bool" where
  "wf_board n b = (length b = n \<and> list_all (\<lambda>row. length row = n) b)"

section \<open>JavaScript maps\<close>

text \<open>
  A JavaScript \<open>Map\<close> iterates in insertion order, and \<open>set\<close> on a key that is present
  replaces the value where the key stands. It is an association list with one entry per
  key; \<open>get\<close> is \<open>map_of\<close>.
\<close>

type_synonym ('k, 'v) jsmap = "('k \<times> 'v) list"

fun mapSet :: "('k, 'v) jsmap \<Rightarrow> 'k \<Rightarrow> 'v \<Rightarrow> ('k, 'v) jsmap" where
  "mapSet [] k v = [(k, v)]"
| "mapSet ((k', v') # m) k v = (if k' = k then (k', v) # m else (k', v') # mapSet m k v)"

definition mapHas :: "('k, 'v) jsmap \<Rightarrow> 'k \<Rightarrow> bool" where
  "mapHas m k = (map_of m k \<noteq> None)"

text \<open>\<open>m.get(k) || 0\<close> on a map of counts.\<close>

definition getCount :: "('k, nat) jsmap \<Rightarrow> 'k \<Rightarrow> nat" where
  "getCount m k = (case map_of m k of None \<Rightarrow> 0 | Some c \<Rightarrow> c)"

section \<open>Vote tally (server/controllers/game)\<close>

text \<open>
  The tally of \<open>checkGroupConsensus\<close>: count the stored answers by cell id, then take
  the entry with the strictly largest count while walking the counts in insertion order.
  The result counts as a consensus when it is a non-empty string.
\<close>

definition countAnswers :: "jsstring list \<Rightarrow> (jsstring, nat) jsmap" where
  "countAnswers cellIds =
     foldl (\<lambda>answerCounts cellId. mapSet answerCounts cellId (getCount answerCounts cellId + 1))
       [] cellIds"

definition mostCommon :: "(jsstring, nat) jsmap \<Rightarrow> jsstring \<times> nat" where
  "mostCommon entries =
     foldl (\<lambda>(mostCommonAnswer, highestCount) (cellId, count).
              if count > highestCount then (cellId, count)
              else (mostCommonAnswer, highestCount))
       ([], 0) entries"

definition groupConsensus :: "jsstring list \<Rightarrow> jsstring option" where
  "groupConsensus cellIds =
     (let mostCommonAnswer = fst (mostCommon (countAnswers cellIds))
      in if mostCommonAnswer \<noteq> [] then Some mostCommonAnswer else None)"

text \<open>
  The tally of \<open>handleRevealAnswer\<close>: one pass over the in-memory votes of a group (player
  id to cell id, in insertion order) that counts and keeps the running leader; the leader
  changes only when a count becomes strictly larger than the highest count so far.
\<close>

definition revealStep ::
  "(jsstring, nat) jsmap \<times> jsstring \<times> nat \<Rightarrow> jsstring \<times> jsstring \<Rightarrow>
   (jsstring, nat) jsmap \<times> jsstring \<times> nat" where
  "revealStep acc entry =
     (case acc of (answerCounts, mostCommonAnswer, highestCount) \<Rightarrow>
        let cellId = snd entry;
            count = getCount answerCounts cellId;
            answerCounts' = mapSet answerCounts cellId (count + 1)
        in if count + 1 > highestCount then (answerCounts', cellId, count + 1)
           else (answerCounts', mostCommonAnswer, highestCount))"

definition revealConsensus :: "(jsstring, jsstring) jsmap \<Rightarrow> jsstring option" where
  "revealConsensus groupAnswers =
     (case foldl revealStep ([], [], 0) groupAnswers of
        (answerCounts, mostCommonAnswer, highestCount) \<Rightarrow>
          if mostCommonAnswer \<noteq> [] then Some mostCommonAnswer else None)"

subsection \<open>The specification's consensus\<close>

text \<open>
  \<open>resolveConsensus\<close> as the specification words it: among the choices in arrival order,
  the first one whose count is the highest (so that of several choices with the highest
  count the one whose first vote arrived first wins); no consensus on the empty list.
\<close>

definition resolveConsensus :: "jsstring list \<Rightarrow> jsstring option" where
  "resolveConsensus choices =
     find (\<lambda>c. list_all (\<lambda>d. count_list choices d \<le> count_list choices c) choices) choices"

section \<open>Data model and storage (server/storage, class MemStorage)\<close>

text \<open>
  The coordinator's \<open>storage\<close> is the exported \<open>MemStorage\<close> instance. Games, groups,
  boards and questions are the interfaces of that file; fields that two interfaces share
  (\<open>id\<close>, \<open>name\<close>, \<open>answer\<close>, \<open>question\<close>) carry the record's name as a prefix. The
  \<open>timestamp\<close> of a stored answer is written from the clock and read nowhere; it is left
  out. Users and AI providers are not part of the game coordinator.
\<close>

datatype gameStatus = Waiting | Active | Completed

record player =
  player_id :: jsstring
  player_name :: jsstring

record boardCell =
  cell_position :: jsstring
  cell_content :: jsstring
  cell_answer :: jsstring
  correct :: bool

record groupT =
  group_id :: jsstring
  group_name :: jsstring
  players :: "player list"
  board :: "boardCell list"
  hasBingo :: bool
  bingoPattern :: "jsstring list option"

record question =
  question_id :: jsstring
  question_text :: jsstring
  question_answer :: jsstring
  used :: bool

record currentQuestionT =
  cq_id :: jsstring
  cq_question :: jsstring
  cq_timeLimit :: nat

record game =
  game_id :: jsstring
  game_name :: jsstring
  creatorId :: nat
  boardSize :: nat
  cellSize :: jsstring
  answerTime :: nat
  groupCount :: nat
  status :: gameStatus
  createdAt :: jsstring
  questions :: "question list"
  currentQuestion :: "currentQuestionT option"
  groups :: "groupT list"

record playerAnswer =
  pa_playerId :: jsstring
  pa_groupId :: jsstring
  pa_cellId :: jsstring
  pa_position :: jsstring

record storageT =
  games :: "(jsstring, game) jsmap"
  playerAnswers :: "(jsstring, playerAnswer list) jsmap"

text \<open>Every \<open>throw\<close> of the storage and of the handlers, and the failure of \<open>JSON.parse\<close>.\<close>

datatype error =
    InvalidJSON
  | InvalidInput
  | GameNotFound
  | GameNotWaiting
  | GameNotActive
  | PlayerNotInAnyGroup
  | StorageGameNotFound
  | StorageGroupNotFound
  | StoragePlayerNotInGroup
  | StorageInvalidCellId
  | StorageCellNotFound
  | StorageQuestionNotFound


text \<open>
  \<open>s.split('-')\<close>, and \<open>xs.find(p)\<close> followed by an assignment to a field of the object
  found: the first element that satisfies \<open>p\<close> is replaced, the array keeps its order.
\<close>

fun splitAt :: "16 word \<Rightarrow> jsstring \<Rightarrow> jsstring list" where
  "splitAt sep [] = [[]]"
| "splitAt sep (c # cs) =
     (if c = sep then [] # splitAt sep cs
      else (case splitAt sep cs of [] \<Rightarrow> [[c]] | p # ps \<Rightarrow> (c # p) # ps))"

fun updateFirst :: "('a \<Rightarrow> bool) \<Rightarrow> ('a \<Rightarrow> 'a) \<Rightarrow> 'a list \<Rightarrow> 'a list" where
  "updateFirst p f [] = []"
| "updateFirst p f (x # xs) = (if p x then f x # xs else x # updateFirst p f xs)"

definition getGame :: "storageT \<Rightarrow> jsstring \<Rightarrow> game option" where
  "getGame st gameId = map_of (games st) gameId"

definition updateGameStatus :: "storageT \<Rightarrow> jsstring \<Rightarrow> gameStatus \<Rightarrow> error + storageT" where
  "updateGameStatus st gameId newStatus =
     (case getGame st gameId of
        None \<Rightarrow> Inl StorageGameNotFound
      | Some game \<Rightarrow> Inr (st\<lparr>games := mapSet (games st) gameId (game\<lparr>status := newStatus\<rparr>)\<rparr>))"

text \<open>
  \<open>getNextQuestion\<close> marks the first unused question as used, in the stored game, and
  returns it with the game's answer time; \<open>null\<close> when every question is used.
\<close>

definition getNextQuestion ::
  "storageT \<Rightarrow> jsstring \<Rightarrow> error + (currentQuestionT option \<times> storageT)" where
  "getNextQuestion st gameId =
     (case getGame st gameId of
        None \<Rightarrow> Inl StorageGameNotFound
      | Some game \<Rightarrow>
          (case find (\<lambda>q. \<not> used q) (questions game) of
             None \<Rightarrow> Inr (None, st)
           | Some unusedQuestion \<Rightarrow>
               Inr (Some \<lparr>cq_id = question_id unusedQuestion,
                          cq_question = question_text unusedQuestion,
                          cq_timeLimit = answerTime game\<rparr>,
                    st\<lparr>games := mapSet (games st) gameId
                         (game\<lparr>questions :=
                            updateFirst (\<lambda>q. \<not> used q) (\<lambda>q. q\<lparr>used := True\<rparr>)
                              (questions game)\<rparr>)\<rparr>)))"

definition updateCurrentQuestion ::
  "storageT \<Rightarrow> jsstring \<Rightarrow> currentQuestionT \<Rightarrow> error + storageT" where
  "updateCurrentQuestion st gameId q =
     (case getGame st gameId of
        None \<Rightarrow> Inl StorageGameNotFound
      | Some game \<Rightarrow>
          Inr (st\<lparr>games := mapSet (games st) gameId (game\<lparr>currentQuestion := Some q\<rparr>)\<rparr>))"

text \<open>The key of the answers of a question: \<open>`${gameId}:${game.currentQuestion?.id}`\<close>.\<close>

definition answerKey :: "jsstring \<Rightarrow> game \<Rightarrow> jsstring" where
  "answerKey gameId game =
     gameId @ js '':'' @
     (case currentQuestion game of None \<Rightarrow> js ''undefined'' | Some q \<Rightarrow> cq_id q)"

text \<open>\<open>playerAnswers.get(key) || []\<close>.\<close>

definition answersAt :: "storageT \<Rightarrow> jsstring \<Rightarrow> playerAnswer list" where
  "answersAt st key = (case map_of (playerAnswers st) key of None \<Rightarrow> [] | Some as \<Rightarrow> as)"

text \<open>
  \<open>recordPlayerAnswer\<close>: the player must belong to the group and the cell id must have
  exactly two parts around one dash. An answer of the same player for the current question
  is replaced where it stands; otherwise the answer is appended.
\<close>

definition upsertAnswer :: "playerAnswer list \<Rightarrow> playerAnswer \<Rightarrow> playerAnswer list" where
  "upsertAnswer answers a =
     (if list_ex (\<lambda>b. pa_playerId b = pa_playerId a) answers
      then updateFirst (\<lambda>b. pa_playerId b = pa_playerId a) (\<lambda>b. a) answers
      else answers @ [a])"

definition recordPlayerAnswer ::
  "storageT \<Rightarrow> jsstring \<Rightarrow> jsstring \<Rightarrow> jsstring \<Rightarrow> jsstring \<Rightarrow> error + storageT" where
  "recordPlayerAnswer st gameId playerId groupId cellId =
     (case getGame st gameId of
        None \<Rightarrow> Inl StorageGameNotFound
      | Some game \<Rightarrow>
     (case find (\<lambda>g. group_id g = groupId) (groups game) of
        None \<Rightarrow> Inl StorageGroupNotFound
      | Some grp \<Rightarrow>
     (case find (\<lambda>p. player_id p = playerId) (players grp) of
        None \<Rightarrow> Inl StoragePlayerNotInGroup
      | Some player \<Rightarrow>
     (let cellIdParts = splitAt 45 cellId
      in if length cellIdParts \<noteq> 2 then Inl StorageInvalidCellId
         else
           let position = cellIdParts ! 1;
               key = answerKey gameId game;
               answers = upsertAnswer (answersAt st key)
                 \<lparr>pa_playerId = playerId, pa_groupId = groupId, pa_cellId = cellId,
                  pa_position = position\<rparr>
           in Inr (st\<lparr>playerAnswers := mapSet (playerAnswers st) key answers\<rparr>)))))"

definition getGroupAnswers :: "storageT \<Rightarrow> jsstring \<Rightarrow> jsstring \<Rightarrow> playerAnswer list" where
  "getGroupAnswers st gameId groupId =
     (case getGame st gameId of
        None \<Rightarrow> []
      | Some game \<Rightarrow>
          (case currentQuestion game of
             None \<Rightarrow> []
           | Some q \<Rightarrow> filter (\<lambda>a. pa_groupId a = groupId) (answersAt st (answerKey gameId game))))"

text \<open>
  \<open>setGroupAnswer\<close> writes the \<open>correct\<close> flag of the group's cell at the position named
  by the cell id: true exactly when the cell's paired question is the current question.
\<close>

definition setGroupAnswer ::
  "storageT \<Rightarrow> jsstring \<Rightarrow> jsstring \<Rightarrow> jsstring \<Rightarrow> error + storageT" where
  "setGroupAnswer st gameId groupId cellId =
     (case getGame st gameId of
        None \<Rightarrow> Inl StorageGameNotFound
      | Some game \<Rightarrow>
     (case currentQuestion game of
        None \<Rightarrow> Inl StorageGameNotFound
      | Some cq \<Rightarrow>
     (case find (\<lambda>g. group_id g = groupId) (groups game) of
        None \<Rightarrow> Inl StorageGroupNotFound
      | Some grp \<Rightarrow>
     (let cellIdParts = splitAt 45 cellId
      in if length cellIdParts \<noteq> 2 then Inl StorageInvalidCellId
         else
           let position = cellIdParts ! 1
           in (case find (\<lambda>c. cell_position c = position) (board grp) of
                 None \<Rightarrow> Inl StorageCellNotFound
               | Some cell \<Rightarrow>
              (case find (\<lambda>q. question_id q = cq_id cq) (questions game) of
                 None \<Rightarrow> Inl StorageQuestionNotFound
               | Some q \<Rightarrow>
                   let isCorrect = (cell_answer cell = question_text q);
                       grp' = grp\<lparr>board :=
                         updateFirst (\<lambda>c. cell_position c = position)
                           (\<lambda>c. c\<lparr>correct := isCorrect\<rparr>) (board grp)\<rparr>;
                       game' = game\<lparr>groups :=
                         updateFirst (\<lambda>g. group_id g = groupId) (\<lambda>g. grp') (groups game)\<rparr>
                   in Inr (st\<lparr>games := mapSet (games st) gameId game'\<rparr>)))))))"

definition getGroupCorrectAnswers ::
  "storageT \<Rightarrow> jsstring \<Rightarrow> jsstring \<Rightarrow> error + (jsstring \<times> jsstring) list" where
  "getGroupCorrectAnswers st gameId groupId =
     (case getGame st gameId of
        None \<Rightarrow> Inl StorageGameNotFound
      | Some game \<Rightarrow>
          (case find (\<lambda>g. group_id g = groupId) (groups game) of
             None \<Rightarrow> Inl StorageGroupNotFound
           | Some grp \<Rightarrow>
               Inr (map (\<lambda>c. (cell_position c, cell_content c)) (filter correct (board grp)))))"

definition setGroupBingo ::
  "storageT \<Rightarrow> jsstring \<Rightarrow> jsstring \<Rightarrow> jsstring list \<Rightarrow> error + storageT" where
  "setGroupBingo st gameId groupId pattern =
     (case getGame st gameId of
        None \<Rightarrow> Inl StorageGameNotFound
      | Some game \<Rightarrow>
          (case find (\<lambda>g. group_id g = groupId) (groups game) of
             None \<Rightarrow> Inl StorageGroupNotFound
           | Some grp \<Rightarrow>
               Inr (st\<lparr>games := mapSet (games st) gameId
                      (game\<lparr>groups :=
                         updateFirst (\<lambda>g. group_id g = groupId)
                           (\<lambda>g. g\<lparr>hasBingo := True, bingoPattern := Some pattern\<rparr>)
                           (groups game)\<rparr>)\<rparr>)))"

section \<open>The session coordinator (server/controllers/game)\<close>

text \<open>
  A socket is an identity and its \<open>readyState\<close>; \<open>WebSocket.OPEN\<close> is 1. The coordinator's
  state is the storage, the connection registry \<open>gameConnections\<close> (game id to participant
  id to socket), the in-flight votes \<open>gameAnswers\<close> (game id to group id to player id to
  cell id), the messages written to sockets so far (socket id and message, oldest first),
  the errors reported by the \<open>catch\<close> blocks, and the reveals scheduled by \<open>setTimeout\<close>.
  With \<open>MemStorage\<close> no storage call waits for anything outside the process, so one
  inbound message is handled to its end before the next one starts.
\<close>

record socket =
  socket_id :: nat
  readyState :: nat

definition WS_OPEN :: nat where
  "WS_OPEN = 1"

record hostGameView =
  hv_id :: jsstring
  hv_name :: jsstring
  hv_status :: gameStatus
  hv_boardSize :: nat
  hv_cellSize :: jsstring
  hv_answerTime :: nat
  hv_groupCount :: nat
  hv_currentQuestion :: "currentQuestionT option"
  hv_groups :: "groupT list"

record playerGameView =
  pv_id :: jsstring
  pv_name :: jsstring
  pv_status :: gameStatus
  pv_boardSize :: nat
  pv_cellSize :: jsstring
  pv_currentQuestion :: "currentQuestionT option"
  pv_currentGroup :: groupT

record answerOption =
  opt_id :: jsstring
  opt_position :: jsstring
  opt_content :: jsstring
  opt_votes :: nat
  opt_voters :: "jsstring list"

datatype message =
    GameUpdateHost hostGameView
  | GameUpdatePlayer playerGameView
  | GameOver jsstring
  | BingoAchieved jsstring jsstring "player list" "jsstring list" nat
  | HostSelectedMsg jsstring jsstring int jsstring "currentQuestionT option"
  | PlayerVote "jsstring option" jsstring jsstring "answerOption list"
  | ErrorMsg jsstring

record coordinator =
  storage :: storageT
  gameConnections :: "(jsstring, (jsstring, socket) jsmap) jsmap"
  gameAnswers :: "(jsstring, (jsstring, (jsstring, jsstring) jsmap) jsmap) jsmap"
  sent :: "(nat \<times> message) list"
  errorLog :: "error list"
  timers :: "(int \<times> jsstring \<times> jsstring \<times> jsstring) list"

text \<open>The inbound messages by their \<open>type\<close>; a text that is not JSON; any other type.\<close>

datatype inbound =
    StartGame
  | EndGame
  | NextQuestion
  | SelectAnswer jsstring jsstring
  | HostSelected jsstring jsstring int
  | RevealAnswer jsstring jsstring
  | AnswerSelect jsstring jsstring jsstring
  | UnknownType jsstring
  | NotJSON

definition send :: "coordinator \<Rightarrow> socket \<Rightarrow> message \<Rightarrow> coordinator" where
  "send s connection m = s\<lparr>sent := sent s @ [(socket_id connection, m)]\<rparr>"

definition sendIfOpen :: "coordinator \<Rightarrow> socket \<Rightarrow> message \<Rightarrow> coordinator" where
  "sendIfOpen s connection m = (if readyState connection = WS_OPEN then send s connection m else s)"

text \<open>The loop that writes one message to every open socket registered for a game.\<close>

definition broadcast :: "coordinator \<Rightarrow> jsstring \<Rightarrow> message \<Rightarrow> coordinator" where
  "broadcast s gameId m =
     (case map_of (gameConnections s) gameId of
        None \<Rightarrow> s
      | Some connections \<Rightarrow> foldl (\<lambda>s' entry. sendIfOpen s' (snd entry) m) s connections)"

definition logError :: "coordinator \<Rightarrow> error \<Rightarrow> coordinator" where
  "logError s e = s\<lparr>errorLog := errorLog s @ [e]\<rparr>"

text \<open>The first group one of whose players has the given id.\<close>

definition findPlayerGroup :: "game \<Rightarrow> jsstring \<Rightarrow> groupT option" where
  "findPlayerGroup game playerId =
     find (\<lambda>g. list_ex (\<lambda>p. player_id p = playerId) (players g)) (groups game)"

subsection \<open>sendGameUpdate\<close>

definition hostUpdate :: "game \<Rightarrow> message" where
  "hostUpdate game =
     GameUpdateHost \<lparr>hv_id = game_id game, hv_name = game_name game, hv_status = status game,
       hv_boardSize = boardSize game, hv_cellSize = cellSize game,
       hv_answerTime = answerTime game, hv_groupCount = groupCount game,
       hv_currentQuestion = currentQuestion game, hv_groups = groups game\<rparr>"

definition playerUpdate :: "game \<Rightarrow> groupT \<Rightarrow> message" where
  "playerUpdate game playerGroup =
     GameUpdatePlayer \<lparr>pv_id = game_id game, pv_name = game_name game, pv_status = status game,
       pv_boardSize = boardSize game, pv_cellSize = cellSize game,
       pv_currentQuestion = currentQuestion game, pv_currentGroup = playerGroup\<rparr>"

definition sendPlayerUpdate :: "game \<Rightarrow> coordinator \<Rightarrow> jsstring \<times> socket \<Rightarrow> coordinator" where
  "sendPlayerUpdate game s entry =
     (case entry of (playerId, connection) \<Rightarrow>
        if playerId = js ''host'' \<or> readyState connection \<noteq> WS_OPEN then s
        else (case findPlayerGroup game playerId of
                None \<Rightarrow> s
              | Some playerGroup \<Rightarrow> send s connection (playerUpdate game playerGroup)))"

definition sendGameUpdate :: "coordinator \<Rightarrow> jsstring \<Rightarrow> coordinator" where
  "sendGameUpdate s gameId =
     (case getGame (storage s) gameId of
        None \<Rightarrow> s
      | Some game \<Rightarrow>
          (case map_of (gameConnections s) gameId of
             None \<Rightarrow> s
           | Some connections \<Rightarrow>
               let s1 = (case map_of connections (js ''host'') of
                           None \<Rightarrow> s
                         | Some hostConnection \<Rightarrow> sendIfOpen s hostConnection (hostUpdate game))
               in foldl (sendPlayerUpdate game) s1 connections))"

subsection \<open>Handlers that rethrow: start_game, end_game, next_question, select_answer\<close>

text \<open>
  A handler returns the error it throws, if any, and the state it leaves. Each of these
  handlers reports the error on the console before throwing it again.
  \<open>sendGameUpdate\<close> is called without \<open>await\<close>: it stops at its first storage call and
  writes its messages after the handler has finished, so the \<open>game_over\<close> messages of a
  handler precede the \<open>game_update\<close> messages.
\<close>

definition raise :: "coordinator \<Rightarrow> error \<Rightarrow> error option \<times> coordinator" where
  "raise s e = (Some e, logError s e)"

definition handleStartGame :: "coordinator \<Rightarrow> jsstring \<Rightarrow> error option \<times> coordinator" where
  "handleStartGame s gameId =
     (case getGame (storage s) gameId of
        None \<Rightarrow> raise s GameNotFound
      | Some game \<Rightarrow>
          if status game \<noteq> Waiting then raise s GameNotWaiting
          else (case updateGameStatus (storage s) gameId Active of
                  Inl e \<Rightarrow> raise s e
                | Inr st \<Rightarrow> (None, sendGameUpdate (s\<lparr>storage := st\<rparr>) gameId)))"

definition handleEndGame :: "coordinator \<Rightarrow> jsstring \<Rightarrow> error option \<times> coordinator" where
  "handleEndGame s gameId =
     (case getGame (storage s) gameId of
        None \<Rightarrow> raise s GameNotFound
      | Some game \<Rightarrow>
          if status game \<noteq> Active then raise s GameNotActive
          else (case updateGameStatus (storage s) gameId Completed of
                  Inl e \<Rightarrow> raise s e
                | Inr st \<Rightarrow>
                    (None, sendGameUpdate
                       (broadcast (s\<lparr>storage := st\<rparr>) gameId (GameOver (js ''The game has ended'')))
                       gameId)))"

definition handleNextQuestion :: "coordinator \<Rightarrow> jsstring \<Rightarrow> error option \<times> coordinator" where
  "handleNextQuestion s gameId =
     (case getGame (storage s) gameId of
        None \<Rightarrow> raise s GameNotFound
      | Some game \<Rightarrow>
          if status game \<noteq> Active then raise s GameNotActive
          else (case getNextQuestion (storage s) gameId of
                  Inl e \<Rightarrow> raise s e
                | Inr (None, st) \<Rightarrow>
                    (case updateGameStatus st gameId Completed of
                       Inl e \<Rightarrow> raise (s\<lparr>storage := st\<rparr>) e
                     | Inr st' \<Rightarrow>
                         (None, sendGameUpdate
                            (broadcast (s\<lparr>storage := st'\<rparr>) gameId
                               (GameOver (js ''All questions have been answered'')))
                            gameId))
                | Inr (Some nextQuestion, st) \<Rightarrow>
                    (case updateCurrentQuestion st gameId nextQuestion of
                       Inl e \<Rightarrow> raise (s\<lparr>storage := st\<rparr>) e
                     | Inr st' \<Rightarrow> (None, sendGameUpdate (s\<lparr>storage := st'\<rparr>) gameId))))"

text \<open>
  The bingo check that follows a recorded consensus answer, the same statements in
  \<open>checkGroupConsensus\<close> and in \<open>handleRevealAnswer\<close>: with at least \<open>boardSize\<close> correct
  cells and a winning line among them, the group's bingo is stored and \<open>bingo_achieved\<close>
  goes to every open socket of the game.
\<close>

definition bingoCheck ::
  "coordinator \<Rightarrow> jsstring \<Rightarrow> groupT \<Rightarrow> nat \<Rightarrow> error option \<times> coordinator" where
  "bingoCheck s gameId grp bsize =
     (case getGroupCorrectAnswers (storage s) gameId (group_id grp) of
        Inl e \<Rightarrow> (Some e, s)
      | Inr correctAnswers \<Rightarrow>
          if length correctAnswers \<ge> bsize
          then (case checkBingoPattern (map fst correctAnswers) bsize of
                  None \<Rightarrow> (None, s)
                | Some pattern \<Rightarrow>
                    (case setGroupBingo (storage s) gameId (group_id grp) pattern of
                       Inl e \<Rightarrow> (Some e, s)
                     | Inr st \<Rightarrow>
                         (None, broadcast (s\<lparr>storage := st\<rparr>) gameId
                            (BingoAchieved (group_id grp) (group_name grp) (players grp)
                               pattern bsize))))
          else (None, s))"

text \<open>\<open>checkGroupConsensus\<close> catches every error and reports it on the console only.\<close>

definition checkGroupConsensus :: "coordinator \<Rightarrow> jsstring \<Rightarrow> jsstring \<Rightarrow> coordinator" where
  "checkGroupConsensus s gameId groupId =
     (case getGame (storage s) gameId of
        None \<Rightarrow> s
      | Some game \<Rightarrow>
     (case find (\<lambda>g. group_id g = groupId) (groups game) of
        None \<Rightarrow> s
      | Some grp \<Rightarrow>
     (let answers = getGroupAnswers (storage s) gameId groupId
      in if answers = [] then s
         else (case groupConsensus (map pa_cellId answers) of
                 None \<Rightarrow> s
               | Some mostCommonAnswer \<Rightarrow>
                   (case setGroupAnswer (storage s) gameId groupId mostCommonAnswer of
                      Inl e \<Rightarrow> logError s e
                    | Inr st \<Rightarrow>
                        (case bingoCheck (s\<lparr>storage := st\<rparr>) gameId grp (boardSize game) of
                           (None, s') \<Rightarrow> s'
                         | (Some e, s') \<Rightarrow> logError s' e))))))"

definition handleSelectAnswer ::
  "coordinator \<Rightarrow> jsstring \<Rightarrow> jsstring \<Rightarrow> jsstring \<Rightarrow> error option \<times> coordinator" where
  "handleSelectAnswer s gameId playerId cellId =
     (if gameId = [] \<or> playerId = [] \<or> cellId = [] then raise s InvalidInput
      else (case getGame (storage s) gameId of
              None \<Rightarrow> raise s GameNotFound
            | Some game \<Rightarrow>
                if status game \<noteq> Active then raise s GameNotActive
                else (case findPlayerGroup game playerId of
                        None \<Rightarrow> raise s PlayerNotInAnyGroup
                      | Some playerGroup \<Rightarrow>
                          (case recordPlayerAnswer (storage s) gameId playerId
                                  (group_id playerGroup) cellId of
                             Inl e \<Rightarrow> raise s e
                           | Inr st \<Rightarrow>
                               (None, sendGameUpdate
                                  (checkGroupConsensus (s\<lparr>storage := st\<rparr>) gameId
                                     (group_id playerGroup))
                                  gameId)))))"

subsection \<open>Handlers that catch: host_selected, answer_select, reveal_answer\<close>

text \<open>\<open>if (!gameAnswers.has(gameId)) gameAnswers.set(gameId, new Map())\<close> and the reads after it.\<close>

definition ensureGame ::
  "(jsstring, (jsstring, (jsstring, jsstring) jsmap) jsmap) jsmap \<Rightarrow> jsstring \<Rightarrow>
   (jsstring, (jsstring, (jsstring, jsstring) jsmap) jsmap) jsmap" where
  "ensureGame ga gameId = (if mapHas ga gameId then ga else mapSet ga gameId [])"

definition votesOfGame ::
  "(jsstring, (jsstring, (jsstring, jsstring) jsmap) jsmap) jsmap \<Rightarrow> jsstring \<Rightarrow>
   (jsstring, (jsstring, jsstring) jsmap) jsmap" where
  "votesOfGame ga gameId = (case map_of ga gameId of None \<Rightarrow> [] | Some m \<Rightarrow> m)"

definition sendHostSelected ::
  "game \<Rightarrow> jsstring \<Rightarrow> jsstring \<Rightarrow> int \<Rightarrow> coordinator \<Rightarrow> jsstring \<times> socket \<Rightarrow> coordinator" where
  "sendHostSelected game cellId position timeLimit s entry =
     (case entry of (playerId, connection) \<Rightarrow>
        if readyState connection = WS_OPEN \<and> playerId \<noteq> js ''host''
        then let playerCell =
                   (case findPlayerGroup game playerId of
                      None \<Rightarrow> None
                    | Some playerGroup \<Rightarrow>
                        find (\<lambda>c. cell_position c = position) (board playerGroup))
             in send s connection
                  (HostSelectedMsg cellId position timeLimit
                     (case playerCell of None \<Rightarrow> [] | Some c \<Rightarrow> cell_content c)
                     (currentQuestion game))
        else s)"

text \<open>
  \<open>handleHostSelection\<close>: the votes of every group of the game are reset to an empty map,
  every open player socket is told the cell in play, and the reveal is scheduled. Without
  a registry entry for the game the handler returns before scheduling.
\<close>

definition resetVotes ::
  "(jsstring, (jsstring, (jsstring, jsstring) jsmap) jsmap) jsmap \<Rightarrow> jsstring \<Rightarrow> groupT list \<Rightarrow>
   (jsstring, (jsstring, (jsstring, jsstring) jsmap) jsmap) jsmap" where
  "resetVotes ga gameId grps =
     (let ga1 = ensureGame ga gameId
      in mapSet ga1 gameId
           (foldl (\<lambda>m g. mapSet m (group_id g) []) (votesOfGame ga1 gameId) grps))"

definition handleHostSelection ::
  "coordinator \<Rightarrow> jsstring \<Rightarrow> jsstring \<Rightarrow> jsstring \<Rightarrow> int \<Rightarrow> coordinator" where
  "handleHostSelection s gameId cellId position timeLimit =
     (case getGame (storage s) gameId of
        None \<Rightarrow> logError s GameNotFound
      | Some game \<Rightarrow>
          if status game \<noteq> Active then logError s GameNotActive
          else
            let s1 = s\<lparr>gameAnswers := resetVotes (gameAnswers s) gameId (groups game)\<rparr>
            in (case map_of (gameConnections s1) gameId of
                  None \<Rightarrow> s1
                | Some connections \<Rightarrow>
                    let s2 = foldl (sendHostSelected game cellId position timeLimit) s1 connections
                    in s2\<lparr>timers := timers s2 @ [(timeLimit * 1000, gameId, cellId, position)]\<rparr>))"

text \<open>The voters of each cell id, in the order of the votes (\<open>voterMap\<close>).\<close>

definition voterMap :: "(jsstring, jsstring) jsmap \<Rightarrow> (jsstring, jsstring list) jsmap" where
  "voterMap groupAnswers =
     foldl (\<lambda>vm entry.
              mapSet vm (snd entry)
                ((case map_of vm (snd entry) of None \<Rightarrow> [] | Some ps \<Rightarrow> ps) @ [fst entry]))
       [] groupAnswers"

definition answerOptions ::
  "game \<Rightarrow> jsstring \<Rightarrow> (jsstring, jsstring) jsmap \<Rightarrow> answerOption list" where
  "answerOptions game position groupAnswers =
     map (\<lambda>entry.
            \<lparr>opt_id = fst entry, opt_position = position,
             opt_content =
               (case find (\<lambda>c. cell_position c = position) (concat (map board (groups game))) of
                  None \<Rightarrow> [] | Some c \<Rightarrow> cell_content c),
             opt_votes = snd entry,
             opt_voters =
               (case map_of (voterMap groupAnswers) (fst entry) of None \<Rightarrow> [] | Some ps \<Rightarrow> ps)\<rparr>)
       (countAnswers (map snd groupAnswers))"

text \<open>
  \<open>handlePlayerAnswer\<close>: the vote is stored in the in-memory map of the player's group
  (\<open>recordVote\<close>), the votes of the group are read back and counted, and \<open>player_vote\<close> goes
  to the open sockets of the group's players and of the host (\<open>sendPlayerVote\<close>).
\<close>

definition recordVote ::
  "(jsstring, (jsstring, (jsstring, jsstring) jsmap) jsmap) jsmap \<Rightarrow> jsstring \<Rightarrow> jsstring \<Rightarrow>
   jsstring \<Rightarrow> jsstring \<Rightarrow> (jsstring, (jsstring, (jsstring, jsstring) jsmap) jsmap) jsmap" where
  "recordVote ga gameId groupId playerId cellId =
     (let ga1 = ensureGame ga gameId;
          inner = votesOfGame ga1 gameId;
          inner1 = (if mapHas inner groupId then inner else mapSet inner groupId []);
          groupAnswers =
            mapSet (case map_of inner1 groupId of None \<Rightarrow> [] | Some m \<Rightarrow> m) playerId cellId
      in mapSet ga1 gameId (mapSet inner1 groupId groupAnswers))"

definition sendVoteToPlayer ::
  "(jsstring, socket) jsmap \<Rightarrow> message \<Rightarrow> coordinator \<Rightarrow> player \<Rightarrow> coordinator" where
  "sendVoteToPlayer connections m s p =
     (case map_of connections (player_id p) of
        None \<Rightarrow> s
      | Some connection \<Rightarrow> sendIfOpen s connection m)"

definition sendPlayerVote ::
  "coordinator \<Rightarrow> jsstring \<Rightarrow> groupT \<Rightarrow> jsstring \<Rightarrow> jsstring \<Rightarrow> answerOption list \<Rightarrow>
   coordinator" where
  "sendPlayerVote s gameId playerGroup playerId cellId options =
     (case map_of (gameConnections s) gameId of
        None \<Rightarrow> s
      | Some connections \<Rightarrow>
          let s2 = foldl (sendVoteToPlayer connections (PlayerVote None playerId cellId options))
                     s (players playerGroup)
          in (case map_of connections (js ''host'') of
                None \<Rightarrow> s2
              | Some hostConnection \<Rightarrow>
                  sendIfOpen s2 hostConnection
                    (PlayerVote (Some (group_id playerGroup)) playerId cellId options)))"

definition handlePlayerAnswer ::
  "coordinator \<Rightarrow> jsstring \<Rightarrow> jsstring \<Rightarrow> jsstring \<Rightarrow> jsstring \<Rightarrow> coordinator" where
  "handlePlayerAnswer s gameId playerId cellId position =
     (case getGame (storage s) gameId of
        None \<Rightarrow> logError s GameNotFound
      | Some game \<Rightarrow>
          if status game \<noteq> Active then logError s GameNotActive
          else (case findPlayerGroup game playerId of
                  None \<Rightarrow> logError s PlayerNotInAnyGroup
                | Some playerGroup \<Rightarrow>
                    let ga = recordVote (gameAnswers s) gameId (group_id playerGroup) playerId
                               cellId;
                        groupAnswers =
                          (case map_of (votesOfGame ga gameId) (group_id playerGroup) of
                             None \<Rightarrow> [] | Some m \<Rightarrow> m)
                    in sendPlayerVote (s\<lparr>gameAnswers := ga\<rparr>) gameId playerGroup playerId cellId
                         (answerOptions game position groupAnswers)))"

text \<open>
  The loop of \<open>handleRevealAnswer\<close> over the groups of the game: \<open>revealGroup\<close> is its
  body for one group, \<open>revealGroups\<close> the loop. A group without votes is skipped. An
  error of a storage call leaves the loop, and the handler, at once.
\<close>

definition revealGroup ::
  "coordinator \<Rightarrow> jsstring \<Rightarrow> nat \<Rightarrow> groupT \<Rightarrow> error option \<times> coordinator" where
  "revealGroup s gameId bsize grp =
     (case map_of (votesOfGame (gameAnswers s) gameId) (group_id grp) of
        None \<Rightarrow> (None, s)
      | Some groupAnswers \<Rightarrow>
          if groupAnswers = [] then (None, s)
          else (case revealConsensus groupAnswers of
                  None \<Rightarrow> (None, s)
                | Some mostCommonAnswer \<Rightarrow>
                    (case recordPlayerAnswer (storage s) gameId (js ''group'') (group_id grp)
                            mostCommonAnswer of
                       Inl e \<Rightarrow> (Some e, s)
                     | Inr st1 \<Rightarrow>
                    (case setGroupAnswer st1 gameId (group_id grp) mostCommonAnswer of
                       Inl e \<Rightarrow> (Some e, s\<lparr>storage := st1\<rparr>)
                     | Inr st2 \<Rightarrow> bingoCheck (s\<lparr>storage := st2\<rparr>) gameId grp bsize))))"

fun revealGroups ::
  "coordinator \<Rightarrow> jsstring \<Rightarrow> nat \<Rightarrow> groupT list \<Rightarrow> error option \<times> coordinator" where
  "revealGroups s gameId bsize [] = (None, s)"
| "revealGroups s gameId bsize (grp # rest) =
     (case revealGroup s gameId bsize grp of
        (Some e, s') \<Rightarrow> (Some e, s')
      | (None, s') \<Rightarrow> revealGroups s' gameId bsize rest)"

definition clearVotes :: "coordinator \<Rightarrow> jsstring \<Rightarrow> coordinator" where
  "clearVotes s gameId =
     (if mapHas (gameAnswers s) gameId
      then s\<lparr>gameAnswers := mapSet (gameAnswers s) gameId []\<rparr> else s)"

definition handleRevealAnswer ::
  "coordinator \<Rightarrow> jsstring \<Rightarrow> jsstring \<Rightarrow> jsstring \<Rightarrow> coordinator" where
  "handleRevealAnswer s gameId cellId position =
     (case getGame (storage s) gameId of
        None \<Rightarrow> logError s GameNotFound
      | Some game \<Rightarrow>
          if status game \<noteq> Active then logError s GameNotActive
          else (case revealGroups s gameId (boardSize game) (groups game) of
                  (Some e, s') \<Rightarrow> logError s' e
                | (None, s') \<Rightarrow> sendGameUpdate (clearVotes s' gameId) gameId))"

subsection \<open>The message handler of a connection\<close>

text \<open>
  The handler of \<open>ws.on('message')\<close> for the connection \<open>ws\<close> of game \<open>gameId\<close>: an error
  thrown by the dispatched handler is reported and answered with one \<open>error\<close> message on
  \<open>ws\<close> itself.
\<close>

definition dispatch :: "coordinator \<Rightarrow> jsstring \<Rightarrow> inbound \<Rightarrow> error option \<times> coordinator" where
  "dispatch s gameId m =
     (case m of
        NotJSON \<Rightarrow> (Some InvalidJSON, s)
      | StartGame \<Rightarrow> handleStartGame s gameId
      | EndGame \<Rightarrow> handleEndGame s gameId
      | NextQuestion \<Rightarrow> handleNextQuestion s gameId
      | SelectAnswer playerId cellId \<Rightarrow> handleSelectAnswer s gameId playerId cellId
      | HostSelected cellId position timeLimit \<Rightarrow>
          (None, handleHostSelection s gameId cellId position timeLimit)
      | RevealAnswer cellId position \<Rightarrow> (None, handleRevealAnswer s gameId cellId position)
      | AnswerSelect playerId cellId position \<Rightarrow>
          (None, handlePlayerAnswer s gameId playerId cellId position)
      | UnknownType t \<Rightarrow> (None, s))"

definition handleMessage :: "coordinator \<Rightarrow> socket \<Rightarrow> jsstring \<Rightarrow> inbound \<Rightarrow> coordinator" where
  "handleMessage s ws gameId m =
     (case dispatch s gameId m of
        (None, s') \<Rightarrow> s'
      | (Some e, s') \<Rightarrow> send (logError s' e) ws (ErrorMsg (js ''Failed to process message'')))"

subsection \<open>Observations on a step\<close>

text \<open>The messages written between two states, and the \<open>bingo_achieved\<close> messages.\<close>

definition newMessages :: "coordinator \<Rightarrow> coordinator \<Rightarrow> (nat \<times> message) list" where
  "newMessages s s' = drop (length (sent s)) (sent s')"

definition isBingoAchieved :: "message \<Rightarrow> bool" where
  "isBingoAchieved m = (case m of BingoAchieved gid gname members pattern n \<Rightarrow> True | _ \<Rightarrow> False)"

text \<open>
  The updated view of a game as the specification describes \<open>game_update\<close>: the host's
  socket, when it is registered and open, is written the host's snapshot; then every open
  socket registered under a player id is written the snapshot of the first group that has
  a player of that id, when there is one.
\<close>

definition gameUpdateViews :: "game \<Rightarrow> (jsstring, socket) jsmap \<Rightarrow> (nat \<times> message) list" where
  "gameUpdateViews game connections =
     (case map_of connections (js ''host'') of
        None \<Rightarrow> []
      | Some hostConnection \<Rightarrow>
          if readyState hostConnection = WS_OPEN
          then [(socket_id hostConnection, hostUpdate game)] else []) @
     concat (map (\<lambda>entry.
       if fst entry \<noteq> js ''host'' \<and> readyState (snd entry) = WS_OPEN
       then (case findPlayerGroup game (fst entry) of
               None \<Rightarrow> []
             | Some playerGroup \<Rightarrow> [(socket_id (snd entry), playerUpdate game playerGroup)])
       else []) connections)"

subsection \<open>Relating the games of two storages\<close>







section \<open>An example game\<close>

text \<open>
  A 3 x 3 game \<open>g1\<close> with two groups: group \<open>gA\<close> with the players \<open>p1\<close> and \<open>p2\<close>, group
  \<open>gB\<close> with the player \<open>p3\<close>. The cell at a position is paired with the question \<open>Q-\<close>
  followed by the position; the first \<open>k\<close> of the nine questions are used and the last
  of them is the current one. The host and the players \<open>p1\<close> and \<open>p3\<close> are connected with open
  sockets, the socket of \<open>p2\<close> is closed.
\<close>

definition exBoard :: "jsstring list \<Rightarrow> boardCell list" where
  "exBoard marked =
     map (\<lambda>pos. \<lparr>cell_position = pos, cell_content = js ''ans-'' @ pos,
                 cell_answer = js ''Q-'' @ pos, correct = (pos \<in> set marked)\<rparr>)
       (createPositionGrid 3)"

definition exGroupA :: "jsstring list \<Rightarrow> bool \<Rightarrow> groupT" where
  "exGroupA marked bingo =
     \<lparr>group_id = js ''gA'', group_name = js ''Group 1'',
      players = [\<lparr>player_id = js ''p1'', player_name = js ''Ann''\<rparr>,
                 \<lparr>player_id = js ''p2'', player_name = js ''Bob''\<rparr>],
      board = exBoard marked, hasBingo = bingo,
      bingoPattern = (if bingo then Some [js ''A1'', js ''A2'', js ''A3''] else None)\<rparr>"

definition exGroupB :: "jsstring list \<Rightarrow> groupT" where
  "exGroupB marked =
     \<lparr>group_id = js ''gB'', group_name = js ''Group 2'',
      players = [\<lparr>player_id = js ''p3'', player_name = js ''Cid''\<rparr>],
      board = exBoard marked, hasBingo = False, bingoPattern = None\<rparr>"

definition exQuestions :: "nat \<Rightarrow> question list" where
  "exQuestions k =
     map (\<lambda>i. \<lparr>question_id = js ''q'' @ numberToString i,
               question_text = js ''Q-'' @ (createPositionGrid 3 ! i),
               question_answer = js ''ans-'' @ (createPositionGrid 3 ! i),
               used = (i < k)\<rparr>) [0..<9]"

definition exGame :: "gameStatus \<Rightarrow> nat \<Rightarrow> groupT \<Rightarrow> groupT \<Rightarrow> game" where
  "exGame st k gA gB =
     \<lparr>game_id = js ''g1'', game_name = js ''Quiz'', creatorId = 1, boardSize = 3,
      cellSize = js ''medium'', answerTime = 30, groupCount = 2, status = st,
      createdAt = js ''2025'', questions = exQuestions k,
      currentQuestion =
        (if k = 0 then None
         else Some \<lparr>cq_id = js ''q'' @ numberToString (k - 1),
                    cq_question = js ''Q-'' @ (createPositionGrid 3 ! (k - 1)),
                    cq_timeLimit = 30\<rparr>),
      groups = [gA, gB]\<rparr>"

definition exHostSocket :: socket where
  "exHostSocket = \<lparr>socket_id = 0, readyState = 1\<rparr>"

definition exSocket1 :: socket where
  "exSocket1 = \<lparr>socket_id = 1, readyState = 1\<rparr>"

definition exConnections :: "(jsstring, socket) jsmap" where
  "exConnections =
     [(js ''host'', exHostSocket),
      (js ''p1'', exSocket1),
      (js ''p2'', \<lparr>socket_id = 2, readyState = 3\<rparr>),
      (js ''p3'', \<lparr>socket_id = 3, readyState = 1\<rparr>)]"

definition exState :: "game \<Rightarrow> coordinator" where
  "exState g =
     \<lparr>storage = \<lparr>games = [(js ''g1'', g)], playerAnswers = []\<rparr>,
      gameConnections = [(js ''g1'', exConnections)],
      gameAnswers = [], sent = [], errorLog = [], timers = []\<rparr>"

text \<open>
  The state after the host has put the cell \<open>A1\<close> in play and the answer has been revealed
  once, nobody having voted.
\<close>

definition exRevealed :: coordinator where
  "exRevealed =
     handleMessage
       (handleMessage (exState (exGame Active 4 (exGroupA [] False) (exGroupB [])))
          exHostSocket (js ''g1'') (HostSelected (js ''cell-A1'') (js ''A1'') 30))
       exHostSocket (js ''g1'') (RevealAnswer (js ''cell-A1'') (js ''A1''))"







text \<open>
  Four in-memory votes of one group in arrival order: \<open>cell-A1\<close> and \<open>cell-B2\<close> have
  two votes each, the first vote for \<open>cell-A1\<close> arrived first, and \<open>cell-B2\<close> is the
  first to reach two votes.
\<close>

definition exTieVotes :: "(jsstring, jsstring) jsmap" where
  "exTieVotes =
     [(js ''p1'', js ''cell-A1''), (js ''p2'', js ''cell-B2''),
      (js ''p3'', js ''cell-B2''), (js ''p4'', js ''cell-A1'')]"
section \<open>Properties of the board geometry\<close>

lemma markPosition_cell:
  "markPosition n brd pos =
     (case inRangeCell n pos of None \<Rightarrow> brd
      | Some (r, c) \<Rightarrow> brd[r := (brd ! r)[c := True]])"
  by (auto simp: markPosition_def inRangeCell_def Let_def nat_diff_distrib split: option.splits)

lemma inRangeCell_bounds: "inRangeCell n pos = Some (r, c) \<Longrightarrow> r < n \<and> c < n"
  by (auto simp: inRangeCell_def split: option.splits if_splits)

lemma wf_board_mark: "wf_board n b \<Longrightarrow> wf_board n (markPosition n b pos)"
proof (cases "inRangeCell n pos")
  case None
  then show "wf_board n b \<Longrightarrow> ?thesis" by (simp add: markPosition_cell)
next
  case (Some rc)
  obtain r c where rc: "rc = (r, c)" by (cases rc)
  assume w: "wf_board n b"
  have "list_all (\<lambda>row. length row = n) (b[r := (b ! r)[c := True]])"
    using w inRangeCell_bounds[of n pos r c] Some rc
    by (auto simp: wf_board_def list_all_length nth_list_update)
  then show ?thesis using w Some rc by (simp add: markPosition_cell wf_board_def)
qed

lemma mark_cell_get:
  assumes "wf_board n b" "i < n" "j < n"
  shows "markPosition n b pos ! i ! j = (b ! i ! j \<or> inRangeCell n pos = Some (i, j))"
proof (cases "inRangeCell n pos")
  case None
  then show ?thesis by (simp add: markPosition_cell)
next
  case (Some rc)
  obtain r c where rc: "rc = (r, c)" by (cases rc)
  have b: "r < n" "c < n" using inRangeCell_bounds[of n pos r c] Some rc by auto
  have len: "length b = n" "length (b ! r) = n"
    using assms(1) b by (auto simp: wf_board_def list_all_length)
  show ?thesis
    using Some rc assms b len
    by (cases "i = r"; cases "j = c") (simp_all add: markPosition_cell nth_list_update)
qed

lemma fold_marks:
  assumes "wf_board n b"
  shows "wf_board n (foldl (markPosition n) b xs) \<and>
         (\<forall>i<n. \<forall>j<n. foldl (markPosition n) b xs ! i ! j = (b ! i ! j \<or> (i, j) \<in> set (markedCells xs n)))"
  using assms
proof (induction xs arbitrary: b)
  case Nil
  then show ?case by (simp add: markedCells_def map_filter_simps)
next
  case (Cons x xs)
  have w: "wf_board n (markPosition n b x)" using Cons.prems by (rule wf_board_mark)
  from Cons.IH[OF w] show ?case
    using Cons.prems
    by (auto simp: mark_cell_get markedCells_def map_filter_simps split: option.splits)
qed

lemma find_append_opt:
  "find P (xs @ ys) = (case find P xs of None \<Rightarrow> find P ys | Some x \<Rightarrow> Some x)"
  by (induction xs) auto

lemma find_map_opt: "find P (map f xs) = map_option f (find (\<lambda>x. P (f x)) xs)"
  by (induction xs) auto

lemma wf_newBoard: "wf_board n (newBoard n)"
  by (simp add: wf_board_def newBoard_def list_all_iff)

lemma newBoard_cell: "i < n \<Longrightarrow> j < n \<Longrightarrow> \<not> newBoard n ! i ! j"
  by (simp add: newBoard_def)

lemma marked_board:
  defines "B \<equiv> \<lambda>xs n. foldl (markPosition n) (newBoard n) xs"
  shows "wf_board n (B xs n)"
    and "i < n \<Longrightarrow> j < n \<Longrightarrow> B xs n ! i ! j = ((i, j) \<in> set (markedCells xs n))"
  using fold_marks[OF wf_newBoard, of n xs] newBoard_cell[of i n j]
  by (auto simp: B_def)

lemma lineComplete_iff: "lineComplete M line = (set line \<subseteq> set M)"
  by (auto simp: lineComplete_def list_all_iff)

lemma checkBingoPattern_detect: "checkBingoPattern xs n = detectWinPattern xs n"
proof -
  define B where "B = foldl (markPosition n) (newBoard n) xs"
  define M where "M = markedCells xs n"
  have wf: "wf_board n B" unfolding B_def by (rule marked_board(1))
  have cell: "\<And>i j. i < n \<Longrightarrow> j < n \<Longrightarrow> B ! i ! j = ((i, j) \<in> set M)"
    unfolding B_def M_def by (rule marked_board(2))
  have len: "length B = n" "\<And>i. i < n \<Longrightarrow> length (B ! i) = n"
    using wf by (auto simp: wf_board_def list_all_length)
  have row: "find (\<lambda>i. list_all (\<lambda>cell. cell) (B ! i)) [0..<n]
           = find (\<lambda>i. lineComplete M (map (\<lambda>j. (i, j)) [0..<n])) [0..<n]"
    by (rule find_cong) (auto simp: lineComplete_iff list_all_length len cell)
  have col: "find (\<lambda>j. list_all (\<lambda>row. row ! j) B) [0..<n]
           = find (\<lambda>j. lineComplete M (map (\<lambda>i. (i, j)) [0..<n])) [0..<n]"
    by (rule find_cong) (auto simp: lineComplete_iff list_all_length len cell)
  have d1: "list_all (\<lambda>i. B ! i ! i) [0..<n] = lineComplete M (map (\<lambda>i. (i, i)) [0..<n])"
    by (auto simp: lineComplete_iff list_all_iff cell)
  have d2: "list_all (\<lambda>i. B ! i ! (n - 1 - i)) [0..<n]
           = lineComplete M (map (\<lambda>i. (i, n - 1 - i)) [0..<n])"
    by (auto simp: lineComplete_iff list_all_iff cell)
  have lab: "map (\<lambda>i. fromCharCode (65 + i) # numberToString (n - i)) [0..<n]
           = map ((\<lambda>(i, j). positionLabel i j) \<circ> (\<lambda>i. (i, n - 1 - i))) [0..<n]"
    proof (rule map_cong)
    fix i assume "i \<in> set [0..<n]"
    then have "i < n" by simp
    then have e: "n - 1 - i + 1 = n - i" by arith
    show "fromCharCode (65 + i) # numberToString (n - i)
        = ((\<lambda>(i, j). positionLabel i j) \<circ> (\<lambda>i. (i, n - 1 - i))) i"
      unfolding comp_def prod.case positionLabel_def e ..
  qed simp
  show ?thesis
    unfolding checkBingoPattern_def detectWinPattern_def winLines_def Let_def
      B_def[symmetric] M_def[symmetric] row col d1 d2 lab
    apply (simp only: find_append_opt find_map_opt)
    apply (simp add: positionLabel_def comp_def option.map_comp list.map_comp split: option.splits)
    done
qed

lemma winLines_shape: "line \<in> set (winLines n) \<Longrightarrow> distinct line \<and> length line = n"
  by (auto simp: winLines_def distinct_map inj_on_def)

lemma detectWinPattern_needs_n:
  assumes "length (remdups (markedCells xs n)) < n"
  shows "detectWinPattern xs n = None"
proof -
  have "\<not> lineComplete (markedCells xs n) line" if l: "line \<in> set (winLines n)" for line
  proof
    assume "lineComplete (markedCells xs n) line"
    then have "set line \<subseteq> set (markedCells xs n)" by (simp add: lineComplete_iff)
    then have "card (set line) \<le> card (set (markedCells xs n))"
      by (intro card_mono) auto
    moreover have "card (set line) = n"
      using winLines_shape[OF l] by (simp add: distinct_card)
    ultimately show False using assms by (simp add: List.card_set)
  qed
  then have "find (lineComplete (markedCells xs n)) (winLines n) = None"
    by (simp add: find_None_iff)
  then show ?thesis by (simp add: detectWinPattern_def)
qed

lemma markedCells_filter:
  "markedCells (filter (positionInRange n) xs) n = markedCells xs n"
proof (induction xs)
  case Nil
  show ?case by (simp add: markedCells_def)
next
  case (Cons a xs)
  then show ?case
    by (cases "inRangeCell n a") (simp_all add: markedCells_def positionInRange_def)
qed

lemma markPosition_out_of_range:
  "\<not> positionInRange n pos \<Longrightarrow> markPosition n brd pos = brd"
  by (cases "inRangeCell n pos") (simp_all add: markPosition_cell positionInRange_def)

text \<open>
  Claim C5. For every board size and every list of marked labels, \<open>checkBingoPattern\<close>
  returns the labels of the first complete line in the order rows from the top, columns
  from the left, main diagonal, anti-diagonal (so a complete top row wins over any column
  or diagonal complete at the same time), and it returns no pattern when fewer than N
  distinct in-range cells are marked.
\<close>

theorem checkBingoPattern_first_line:
  "checkBingoPattern markedPositions n = detectWinPattern markedPositions n \<and>
   (length (remdups (markedCells markedPositions n)) < n \<longrightarrow>
      checkBingoPattern markedPositions n = None)"
  using checkBingoPattern_detect detectWinPattern_needs_n by simp

theorem checkBingoPattern_first_line_witness:
  "checkBingoPattern [js ''C1'', js ''B1'', js ''A3'', js ''A2'', js ''A1''] 3
     = detectWinPattern [js ''C1'', js ''B1'', js ''A3'', js ''A2'', js ''A1''] 3 \<and>
   checkBingoPattern [js ''C1'', js ''B1'', js ''A3'', js ''A2'', js ''A1''] 3
     = Some [js ''A1'', js ''A2'', js ''A3''] \<and>
   length (remdups (markedCells [js ''A1'', js ''B2'', js ''A1'', js ''Z9''] 3)) < 3 \<and>
   checkBingoPattern [js ''A1'', js ''B2'', js ''A1'', js ''Z9''] 3 = None"
proof -
  have a: "detectWinPattern [js ''C1'', js ''B1'', js ''A3'', js ''A2'', js ''A1''] 3
     = Some [js ''A1'', js ''A2'', js ''A3'']"
    by code_simp
  have b: "length (remdups (markedCells [js ''A1'', js ''B2'', js ''A1'', js ''Z9''] 3)) < 3"
    by code_simp
  have c: "checkBingoPattern [js ''C1'', js ''B1'', js ''A3'', js ''A2'', js ''A1''] 3
     = detectWinPattern [js ''C1'', js ''B1'', js ''A3'', js ''A2'', js ''A1''] 3"
    using checkBingoPattern_first_line[of "[js ''C1'', js ''B1'', js ''A3'', js ''A2'', js ''A1'']" 3]
    by (rule conjunct1)
  have d: "checkBingoPattern [js ''A1'', js ''B2'', js ''A1'', js ''Z9''] 3 = None"
    using checkBingoPattern_first_line[of "[js ''A1'', js ''B2'', js ''A1'', js ''Z9'']" 3] b
    by blast
  show ?thesis using a b c d by (intro conjI) (simp_all only:)
qed

text \<open>
  Claim C10. \<open>checkBingoPattern\<close> is a total function of its inputs, and a label whose
  row letter or column number lies outside the board is ignored: marking it leaves the
  board as it is (no cell outside the board is ever written), and the result is the one
  computed from the in-range labels alone.
\<close>

theorem checkBingoPattern_ignores_out_of_range:
  "checkBingoPattern markedPositions n
     = checkBingoPattern (filter (positionInRange n) markedPositions) n \<and>
   (\<not> positionInRange n pos \<longrightarrow> markPosition n brd pos = brd)"
  by (simp add: checkBingoPattern_detect detectWinPattern_def markedCells_filter
      markPosition_out_of_range)

theorem checkBingoPattern_ignores_out_of_range_witness:
  "checkBingoPattern [js ''A1'', js ''Z9'', js ''B2'', js '''', js ''C3'', js ''A0'', js ''D1''] 3
     = checkBingoPattern [js ''A1'', js ''B2'', js ''C3''] 3 \<and>
   \<not> positionInRange 3 (js ''D1'') \<and>
   markPosition 3 (newBoard 3) (js ''D1'') = newBoard 3"
proof -
  have f: "filter (positionInRange 3)
       [js ''A1'', js ''Z9'', js ''B2'', js '''', js ''C3'', js ''A0'', js ''D1'']
     = [js ''A1'', js ''B2'', js ''C3'']"
    by code_simp
  have r: "\<not> positionInRange 3 (js ''D1'')" by code_simp
  note t = checkBingoPattern_ignores_out_of_range[of
        "[js ''A1'', js ''Z9'', js ''B2'', js '''', js ''C3'', js ''A0'', js ''D1'']" 3
        "js ''D1''" "newBoard 3"]
  have c: "checkBingoPattern
       [js ''A1'', js ''Z9'', js ''B2'', js '''', js ''C3'', js ''A0'', js ''D1''] 3
     = checkBingoPattern [js ''A1'', js ''B2'', js ''C3''] 3"
    using t[THEN conjunct1] unfolding f .
  have d: "markPosition 3 (newBoard 3) (js ''D1'') = newBoard 3"
    using t[THEN conjunct2] r by blast
  show ?thesis using c r d by (intro conjI)
qed

section \<open>Properties of the coordinator\<close>

lemma map_of_mapSet: "map_of (mapSet m k v) k' = (if k' = k then Some v else map_of m k')"
  by (induction m) auto

lemma send_simps [simp]:
  "storage (send s c m) = storage s" "gameAnswers (send s c m) = gameAnswers s"
  "gameConnections (send s c m) = gameConnections s" "errorLog (send s c m) = errorLog s"
  "timers (send s c m) = timers s" "sent (send s c m) = sent s @ [(socket_id c, m)]"
  by (simp_all add: send_def)

lemma logError_simps [simp]:
  "storage (logError s e) = storage s" "gameAnswers (logError s e) = gameAnswers s"
  "gameConnections (logError s e) = gameConnections s" "errorLog (logError s e) = errorLog s @ [e]"
  "timers (logError s e) = timers s" "sent (logError s e) = sent s"
  by (simp_all add: logError_def)

lemma findPlayerGroup_None:
  "\<forall>g\<in>set (groups game). \<forall>p\<in>set (players g). player_id p \<noteq> playerId
   \<Longrightarrow> findPlayerGroup game playerId = None"
  by (auto simp: findPlayerGroup_def find_None_iff list_ex_iff)

text \<open>
  Claim C8. When \<open>select_answer\<close> names a player who belongs to no group of the game,
  exactly one message is written, the \<open>error\<close> message on the connection the request
  came from, and the storage, the in-memory votes and the registry stay as they were.
\<close>

theorem select_answer_outsider:
  assumes "getGame (storage s) gameId = Some game"
    and "\<forall>g\<in>set (groups game). \<forall>p\<in>set (players g). player_id p \<noteq> playerId"
  shows "storage (handleMessage s ws gameId (SelectAnswer playerId cellId)) = storage s \<and>
         gameAnswers (handleMessage s ws gameId (SelectAnswer playerId cellId)) = gameAnswers s \<and>
         gameConnections (handleMessage s ws gameId (SelectAnswer playerId cellId))
           = gameConnections s \<and>
         sent (handleMessage s ws gameId (SelectAnswer playerId cellId))
           = sent s @ [(socket_id ws, ErrorMsg (js ''Failed to process message''))]"
  using assms findPlayerGroup_None[OF assms(2)]
  by (simp add: handleMessage_def dispatch_def handleSelectAnswer_def raise_def)

theorem select_answer_outsider_witness:
  "getGame (storage (exState (exGame Active 4 (exGroupA [] False) (exGroupB [])))) (js ''g1'')
     = Some (exGame Active 4 (exGroupA [] False) (exGroupB [])) \<and>
   list_all (\<lambda>g. list_all (\<lambda>p. player_id p \<noteq> js ''p9'') (players g))
     (groups (exGame Active 4 (exGroupA [] False) (exGroupB []))) \<and>
   sent (handleMessage (exState (exGame Active 4 (exGroupA [] False) (exGroupB [])))
           \<lparr>socket_id = 9, readyState = 1\<rparr> (js ''g1'') (SelectAnswer (js ''p9'') (js ''cell-A1'')))
     = [(9, ErrorMsg (js ''Failed to process message''))] \<and>
   storage (handleMessage (exState (exGame Active 4 (exGroupA [] False) (exGroupB [])))
           \<lparr>socket_id = 9, readyState = 1\<rparr> (js ''g1'') (SelectAnswer (js ''p9'') (js ''cell-A1'')))
     = storage (exState (exGame Active 4 (exGroupA [] False) (exGroupB [])))"
proof -
  have a: "getGame (storage (exState (exGame Active 4 (exGroupA [] False) (exGroupB [])))) (js ''g1'')
     = Some (exGame Active 4 (exGroupA [] False) (exGroupB []))"
    by (simp add: getGame_def exState_def)
  have b: "\<forall>g\<in>set (groups (exGame Active 4 (exGroupA [] False) (exGroupB []))).
      \<forall>p\<in>set (players g). player_id p \<noteq> js ''p9''"
    by (simp add: exGame_def exGroupA_def exGroupB_def js_def)
  have c: "sent (exState (exGame Active 4 (exGroupA [] False) (exGroupB []))) = []"
    by (simp add: exState_def)
  have b': "list_all (\<lambda>g. list_all (\<lambda>p. player_id p \<noteq> js ''p9'') (players g))
     (groups (exGame Active 4 (exGroupA [] False) (exGroupB [])))"
    using b by (simp only: list_all_iff)
  show ?thesis
    using a b' select_answer_outsider[OF a b, of "\<lparr>socket_id = 9, readyState = 1\<rparr>" "js ''cell-A1''"]
    by (simp add: c)
qed


lemma foldl_keeps: "(\<And>s x. g (f s x) = g s) \<Longrightarrow> g (foldl f s xs) = g s"
  by (induction xs arbitrary: s) simp_all

lemma foldl_sent_ext:
  assumes "\<And>s x. \<exists>ms. sent (f s x) = sent s @ ms \<and> list_all Q ms"
  shows "\<exists>ms. sent (foldl f s xs) = sent s @ ms \<and> list_all Q ms"
proof (induction xs arbitrary: s)
  case Nil
  show ?case by simp
next
  case (Cons x xs)
  obtain m1 where m1: "sent (f s x) = sent s @ m1" "list_all Q m1" using assms by blast
  obtain m2 where m2: "sent (foldl f (f s x) xs) = sent (f s x) @ m2" "list_all Q m2"
    using Cons.IH by blast
  show ?case using m1 m2 by (intro exI[of _ "m1 @ m2"]) simp
qed

lemma sendIfOpen_simps [simp]:
  "storage (sendIfOpen s c m) = storage s" "gameAnswers (sendIfOpen s c m) = gameAnswers s"
  "gameConnections (sendIfOpen s c m) = gameConnections s"
  "errorLog (sendIfOpen s c m) = errorLog s" "timers (sendIfOpen s c m) = timers s"
  by (simp_all add: sendIfOpen_def)

lemma sendIfOpen_sent:
  "sent (sendIfOpen s c m) = sent s @ (if readyState c = WS_OPEN then [(socket_id c, m)] else [])"
  by (simp add: sendIfOpen_def)

lemma broadcast_simps [simp]:
  "storage (broadcast s g m) = storage s" "gameAnswers (broadcast s g m) = gameAnswers s"
  "gameConnections (broadcast s g m) = gameConnections s"
  "errorLog (broadcast s g m) = errorLog s" "timers (broadcast s g m) = timers s"
  by (simp_all add: broadcast_def foldl_keeps split: option.splits)

lemma foldl_sendIfOpen_sent:
  "sent (foldl (\<lambda>s' entry. sendIfOpen s' (snd entry) m) s conns)
     = sent s @ map (\<lambda>entry. (socket_id (snd entry), m))
                 (filter (\<lambda>entry. readyState (snd entry) = WS_OPEN) conns)"
  by (induction conns arbitrary: s) (simp_all add: sendIfOpen_sent)

lemma broadcast_sent:
  "sent (broadcast s g m)
     = sent s @ (case map_of (gameConnections s) g of None \<Rightarrow> []
                 | Some conns \<Rightarrow> map (\<lambda>entry. (socket_id (snd entry), m))
                     (filter (\<lambda>entry. readyState (snd entry) = WS_OPEN) conns))"
  by (simp add: broadcast_def foldl_sendIfOpen_sent split: option.splits)

lemma sendPlayerUpdate_simps [simp]:
  "storage (sendPlayerUpdate game s e) = storage s"
  "gameAnswers (sendPlayerUpdate game s e) = gameAnswers s"
  "gameConnections (sendPlayerUpdate game s e) = gameConnections s"
  "errorLog (sendPlayerUpdate game s e) = errorLog s"
  "timers (sendPlayerUpdate game s e) = timers s"
  by (simp_all add: sendPlayerUpdate_def split: prod.splits option.splits)

lemma sendGameUpdate_simps [simp]:
  "storage (sendGameUpdate s g) = storage s" "gameAnswers (sendGameUpdate s g) = gameAnswers s"
  "gameConnections (sendGameUpdate s g) = gameConnections s"
  "errorLog (sendGameUpdate s g) = errorLog s" "timers (sendGameUpdate s g) = timers s"
  by (simp_all add: sendGameUpdate_def foldl_keeps Let_def split: option.splits)

lemma sendPlayerUpdate_sent:
  "\<exists>ms. sent (sendPlayerUpdate game s e) = sent s @ ms \<and>
        list_all (\<lambda>im. \<not> isBingoAchieved (snd im)) ms"
  by (auto simp: sendPlayerUpdate_def playerUpdate_def isBingoAchieved_def
      split: prod.splits option.splits)

lemma sendGameUpdate_sent:
  "\<exists>ms. sent (sendGameUpdate s g) = sent s @ ms \<and>
        list_all (\<lambda>im. \<not> isBingoAchieved (snd im)) ms"
proof (cases "getGame (storage s) g")
  case None
  then show ?thesis by (simp add: sendGameUpdate_def)
next
  case (Some game)
  show ?thesis
  proof (cases "map_of (gameConnections s) g")
    case None
    then show ?thesis using Some by (simp add: sendGameUpdate_def)
  next
    case (Some conns)
    define s1 where "s1 = (case map_of conns (js ''host'') of None \<Rightarrow> s
       | Some hostConnection \<Rightarrow> sendIfOpen s hostConnection (hostUpdate game))"
    have "\<exists>m1. sent s1 = sent s @ m1 \<and> list_all (\<lambda>im. \<not> isBingoAchieved (snd im)) m1"
      by (auto simp: s1_def sendIfOpen_sent hostUpdate_def isBingoAchieved_def
          split: option.splits)
    then obtain m1 where m1: "sent s1 = sent s @ m1"
      "list_all (\<lambda>im. \<not> isBingoAchieved (snd im)) m1" by blast
    obtain m2 where m2: "sent (foldl (sendPlayerUpdate game) s1 conns) = sent s1 @ m2"
      "list_all (\<lambda>im. \<not> isBingoAchieved (snd im)) m2"
      using foldl_sent_ext[of "sendPlayerUpdate game", OF sendPlayerUpdate_sent] by blast
    have "sendGameUpdate s g = foldl (sendPlayerUpdate game) s1 conns"
      using Some \<open>getGame (storage s) g = Some game\<close> by (simp add: sendGameUpdate_def s1_def)
    then show ?thesis using m1 m2 by (intro exI[of _ "m1 @ m2"]) simp
  qed
qed

lemma getGame_updateGameStatus:
  "updateGameStatus st gameId x = Inr st' \<Longrightarrow>
   \<exists>game. getGame st gameId = Some game \<and>
     getGame st' gid = (if gid = gameId then Some (game\<lparr>status := x\<rparr>) else getGame st gid)"
  by (auto simp: updateGameStatus_def getGame_def map_of_mapSet split: option.splits)

lemma updateGameStatus_ok:
  "getGame st gameId = Some game \<Longrightarrow> \<exists>st'. updateGameStatus st gameId x = Inr st'"
  by (simp add: updateGameStatus_def)

lemma getNextQuestion_None:
  "getGame st gameId = Some game \<Longrightarrow> find (\<lambda>q. \<not> used q) (questions game) = None \<Longrightarrow>
   getNextQuestion st gameId = Inr (None, st)"
  by (simp add: getNextQuestion_def)

lemma getNextQuestion_Some:
  "getGame st gameId = Some game \<Longrightarrow> find (\<lambda>q. \<not> used q) (questions game) = Some q \<Longrightarrow>
   \<exists>st'. getNextQuestion st gameId =
       Inr (Some \<lparr>cq_id = question_id q, cq_question = question_text q,
                  cq_timeLimit = answerTime game\<rparr>, st') \<and>
     getGame st' gameId = Some (game\<lparr>questions :=
        updateFirst (\<lambda>q. \<not> used q) (\<lambda>q. q\<lparr>used := True\<rparr>) (questions game)\<rparr>)"
  by (simp add: getNextQuestion_def getGame_def map_of_mapSet)

lemma updateCurrentQuestion_Some:
  "getGame st gameId = Some game \<Longrightarrow>
   \<exists>st'. updateCurrentQuestion st gameId q = Inr st' \<and>
     getGame st' gameId = Some (game\<lparr>currentQuestion := Some q\<rparr>)"
  by (simp add: updateCurrentQuestion_def getGame_def map_of_mapSet)

lemma handleNextQuestion_exhausted:
  assumes g: "getGame (storage s) gameId = Some game" and a: "status game = Active"
    and n: "find (\<lambda>q. \<not> used q) (questions game) = None"
  shows "\<exists>st'. updateGameStatus (storage s) gameId Completed = Inr st' \<and>
     handleMessage s ws gameId NextQuestion =
       sendGameUpdate (broadcast (s\<lparr>storage := st'\<rparr>) gameId
         (GameOver (js ''All questions have been answered''))) gameId"
proof -
  obtain st' where st': "updateGameStatus (storage s) gameId Completed = Inr st'"
    using updateGameStatus_ok[OF g] by blast
  show ?thesis
    using g a st' getNextQuestion_None[OF g n]
    by (simp add: handleMessage_def dispatch_def handleNextQuestion_def)
qed

lemma handleNextQuestion_next:
  assumes g: "getGame (storage s) gameId = Some game" and a: "status game = Active"
    and n: "find (\<lambda>q. \<not> used q) (questions game) = Some q"
  shows "\<exists>st'. getGame st' gameId = Some (game\<lparr>questions :=
           updateFirst (\<lambda>q. \<not> used q) (\<lambda>q. q\<lparr>used := True\<rparr>) (questions game),
           currentQuestion := Some \<lparr>cq_id = question_id q, cq_question = question_text q,
                  cq_timeLimit = answerTime game\<rparr>\<rparr>) \<and>
     handleMessage s ws gameId NextQuestion = sendGameUpdate (s\<lparr>storage := st'\<rparr>) gameId"
proof -
  obtain st1 where st1: "getNextQuestion (storage s) gameId =
       Inr (Some \<lparr>cq_id = question_id q, cq_question = question_text q,
                  cq_timeLimit = answerTime game\<rparr>, st1)"
     "getGame st1 gameId = Some (game\<lparr>questions :=
        updateFirst (\<lambda>q. \<not> used q) (\<lambda>q. q\<lparr>used := True\<rparr>) (questions game)\<rparr>)"
    using getNextQuestion_Some[OF g n] by blast
  obtain st2 where st2: "updateCurrentQuestion st1 gameId \<lparr>cq_id = question_id q,
       cq_question = question_text q, cq_timeLimit = answerTime game\<rparr> = Inr st2"
     "getGame st2 gameId = Some (game\<lparr>questions :=
        updateFirst (\<lambda>q. \<not> used q) (\<lambda>q. q\<lparr>used := True\<rparr>) (questions game),
        currentQuestion := Some \<lparr>cq_id = question_id q,
       cq_question = question_text q, cq_timeLimit = answerTime game\<rparr>\<rparr>)"
    using updateCurrentQuestion_Some[OF st1(2)] by blast
  show ?thesis
    using g a st1 st2
    by (intro exI[of _ st2]) (simp add: handleMessage_def dispatch_def handleNextQuestion_def)
qed

lemma newMessages_ext: "sent s' = sent s @ ms \<Longrightarrow> newMessages s s' = ms"
  by (simp add: newMessages_def)

lemma foldl_sendPlayerUpdate_exact:
  "sent (foldl (sendPlayerUpdate game) s conns)
     = sent s @ concat (map (\<lambda>entry.
         if fst entry \<noteq> js ''host'' \<and> readyState (snd entry) = WS_OPEN
         then (case findPlayerGroup game (fst entry) of
                 None \<Rightarrow> []
               | Some playerGroup \<Rightarrow> [(socket_id (snd entry), playerUpdate game playerGroup)])
         else []) conns)"
  by (induction conns arbitrary: s)
    (auto simp: sendPlayerUpdate_def split: prod.splits option.splits)

lemma sendGameUpdate_views:
  assumes "getGame (storage s) gameId = Some game"
    and "map_of (gameConnections s) gameId = Some conns"
  shows "sent (sendGameUpdate s gameId) = sent s @ gameUpdateViews game conns"
  using assms
  by (auto simp: sendGameUpdate_def gameUpdateViews_def foldl_sendPlayerUpdate_exact
      sendIfOpen_sent split: option.splits)

lemma gameUpdateViews_content:
  assumes "im \<in> set (gameUpdateViews game conns)" "status game = st" "currentQuestion game = cq"
  shows "case snd im of
       GameUpdateHost v \<Rightarrow> hv_status v = st \<and> hv_currentQuestion v = cq
     | GameUpdatePlayer v \<Rightarrow> pv_status v = st \<and> pv_currentQuestion v = cq
     | _ \<Rightarrow> False"
  using assms
  by (auto simp: gameUpdateViews_def hostUpdate_def playerUpdate_def split: option.splits if_splits)

text \<open>
  Claim C7. \<open>next_question\<close> on an active game. When no unused question is left, the
  stored game becomes completed and the messages written are \<open>game_over\<close> on every open
  socket registered for the game, followed by the updated view of the completed game.
  Otherwise the first unused question is marked used and becomes the current question of
  the stored game, and the messages written are the updated view of that game: the host's
  snapshot on the open host socket and, on every open player socket, the snapshot of the
  player's group, each with the new current question.
\<close>

theorem next_question_outcome:
  assumes "getGame (storage s) gameId = Some game" and "status game = Active"
  shows "(find (\<lambda>q. \<not> used q) (questions game) = None \<longrightarrow>
           getGame (storage (handleMessage s ws gameId NextQuestion)) gameId
             = Some (game\<lparr>status := Completed\<rparr>) \<and>
           (\<forall>conns. map_of (gameConnections s) gameId = Some conns \<longrightarrow>
              newMessages s (handleMessage s ws gameId NextQuestion)
                = map (\<lambda>entry. (socket_id (snd entry),
                                  GameOver (js ''All questions have been answered'')))
                    (filter (\<lambda>entry. readyState (snd entry) = WS_OPEN) conns) @
                  gameUpdateViews (game\<lparr>status := Completed\<rparr>) conns)) \<and>
         (\<forall>q. find (\<lambda>q. \<not> used q) (questions game) = Some q \<longrightarrow>
           getGame (storage (handleMessage s ws gameId NextQuestion)) gameId
             = Some (game\<lparr>questions :=
                        updateFirst (\<lambda>q. \<not> used q) (\<lambda>q. q\<lparr>used := True\<rparr>) (questions game),
                      currentQuestion := Some \<lparr>cq_id = question_id q,
                        cq_question = question_text q, cq_timeLimit = answerTime game\<rparr>\<rparr>) \<and>
           (\<forall>conns. map_of (gameConnections s) gameId = Some conns \<longrightarrow>
              newMessages s (handleMessage s ws gameId NextQuestion)
                = gameUpdateViews
                    (game\<lparr>questions :=
                        updateFirst (\<lambda>q. \<not> used q) (\<lambda>q. q\<lparr>used := True\<rparr>) (questions game),
                      currentQuestion := Some \<lparr>cq_id = question_id q,
                        cq_question = question_text q, cq_timeLimit = answerTime game\<rparr>\<rparr>) conns \<and>
              (\<forall>im\<in>set (newMessages s (handleMessage s ws gameId NextQuestion)).
                 case snd im of
                   GameUpdateHost v \<Rightarrow>
                     hv_status v = Active \<and>
                     hv_currentQuestion v = Some \<lparr>cq_id = question_id q,
                        cq_question = question_text q, cq_timeLimit = answerTime game\<rparr>
                 | GameUpdatePlayer v \<Rightarrow>
                     pv_status v = Active \<and>
                     pv_currentQuestion v = Some \<lparr>cq_id = question_id q,
                        cq_question = question_text q, cq_timeLimit = answerTime game\<rparr>
                 | _ \<Rightarrow> False)))"
proof (intro conjI impI allI)
  assume n: "find (\<lambda>q. \<not> used q) (questions game) = None"
  obtain st' where st': "updateGameStatus (storage s) gameId Completed = Inr st'"
    "handleMessage s ws gameId NextQuestion =
       sendGameUpdate (broadcast (s\<lparr>storage := st'\<rparr>) gameId
         (GameOver (js ''All questions have been answered''))) gameId"
    using handleNextQuestion_exhausted[OF assms n] by blast
  have g': "getGame st' gameId = Some (game\<lparr>status := Completed\<rparr>)"
    using getGame_updateGameStatus[OF st'(1), of gameId] assms(1) by simp
  show "getGame (storage (handleMessage s ws gameId NextQuestion)) gameId
             = Some (game\<lparr>status := Completed\<rparr>)"
    using g' st'(2) by simp
  fix conns
  assume c: "map_of (gameConnections s) gameId = Some conns"
  show "newMessages s (handleMessage s ws gameId NextQuestion)
                = map (\<lambda>entry. (socket_id (snd entry),
                                  GameOver (js ''All questions have been answered'')))
                    (filter (\<lambda>entry. readyState (snd entry) = WS_OPEN) conns) @
                  gameUpdateViews (game\<lparr>status := Completed\<rparr>) conns"
    unfolding st'(2)
    by (subst newMessages_ext[where ms="map (\<lambda>entry. (socket_id (snd entry),
                                  GameOver (js ''All questions have been answered'')))
                    (filter (\<lambda>entry. readyState (snd entry) = WS_OPEN) conns) @
                  gameUpdateViews (game\<lparr>status := Completed\<rparr>) conns"])
      (simp_all add: sendGameUpdate_views[where game="game\<lparr>status := Completed\<rparr>" and conns=conns]
        g' c broadcast_sent)
next
  fix q
  assume n: "find (\<lambda>q. \<not> used q) (questions game) = Some q"
  let ?g' = "game\<lparr>questions :=
           updateFirst (\<lambda>q. \<not> used q) (\<lambda>q. q\<lparr>used := True\<rparr>) (questions game),
           currentQuestion := Some \<lparr>cq_id = question_id q, cq_question = question_text q,
                  cq_timeLimit = answerTime game\<rparr>\<rparr>"
  obtain st' where st': "getGame st' gameId = Some ?g'"
     "handleMessage s ws gameId NextQuestion = sendGameUpdate (s\<lparr>storage := st'\<rparr>) gameId"
    using handleNextQuestion_next[OF assms n] by blast
  show "getGame (storage (handleMessage s ws gameId NextQuestion)) gameId = Some ?g'"
    using st' by simp
  fix conns
  assume c: "map_of (gameConnections s) gameId = Some conns"
  show m: "newMessages s (handleMessage s ws gameId NextQuestion) = gameUpdateViews ?g' conns"
    unfolding st'(2)
    by (rule newMessages_ext)
      (simp add: sendGameUpdate_views[where game="?g'" and conns=conns] st'(1) c)
  show "\<forall>im\<in>set (newMessages s (handleMessage s ws gameId NextQuestion)).
                 case snd im of
                   GameUpdateHost v \<Rightarrow>
                     hv_status v = Active \<and>
                     hv_currentQuestion v = Some \<lparr>cq_id = question_id q,
                        cq_question = question_text q, cq_timeLimit = answerTime game\<rparr>
                 | GameUpdatePlayer v \<Rightarrow>
                     pv_status v = Active \<and>
                     pv_currentQuestion v = Some \<lparr>cq_id = question_id q,
                        cq_question = question_text q, cq_timeLimit = answerTime game\<rparr>
                 | _ \<Rightarrow> False"
    unfolding m
  proof
    fix im assume i: "im \<in> set (gameUpdateViews ?g' conns)"
    show "case snd im of
                   GameUpdateHost v \<Rightarrow>
                     hv_status v = Active \<and>
                     hv_currentQuestion v = Some \<lparr>cq_id = question_id q,
                        cq_question = question_text q, cq_timeLimit = answerTime game\<rparr>
                 | GameUpdatePlayer v \<Rightarrow>
                     pv_status v = Active \<and>
                     pv_currentQuestion v = Some \<lparr>cq_id = question_id q,
                        cq_question = question_text q, cq_timeLimit = answerTime game\<rparr>
                 | _ \<Rightarrow> False"
      by (rule gameUpdateViews_content[OF i]) (simp_all add: assms(2))
  qed
qed

theorem next_question_outcome_witness:
  "getGame (storage (exState (exGame Active 9 (exGroupA [] False) (exGroupB [])))) (js ''g1'')
     = Some (exGame Active 9 (exGroupA [] False) (exGroupB [])) \<and>
   status (exGame Active 9 (exGroupA [] False) (exGroupB [])) = Active \<and>
   find (\<lambda>q. \<not> used q) (questions (exGame Active 9 (exGroupA [] False) (exGroupB []))) = None \<and>
   map_of (gameConnections (exState (exGame Active 9 (exGroupA [] False) (exGroupB [])))) (js ''g1'')
     = Some exConnections \<and>
   getGame (storage (handleMessage
       (exState (exGame Active 9 (exGroupA [] False) (exGroupB []))) exHostSocket (js ''g1'')
       NextQuestion)) (js ''g1'')
     = Some (exGame Completed 9 (exGroupA [] False) (exGroupB [])) \<and>
   newMessages (exState (exGame Active 9 (exGroupA [] False) (exGroupB [])))
       (handleMessage (exState (exGame Active 9 (exGroupA [] False) (exGroupB [])))
          exHostSocket (js ''g1'') NextQuestion)
     = [(0, GameOver (js ''All questions have been answered'')),
        (1, GameOver (js ''All questions have been answered'')),
        (3, GameOver (js ''All questions have been answered'')),
        (0, hostUpdate (exGame Completed 9 (exGroupA [] False) (exGroupB []))),
        (1, playerUpdate (exGame Completed 9 (exGroupA [] False) (exGroupB []))
              (exGroupA [] False)),
        (3, playerUpdate (exGame Completed 9 (exGroupA [] False) (exGroupB []))
              (exGroupB []))] \<and>
   getGame (storage (exState (exGame Active 4 (exGroupA [] False) (exGroupB [])))) (js ''g1'')
     = Some (exGame Active 4 (exGroupA [] False) (exGroupB [])) \<and>
   status (exGame Active 4 (exGroupA [] False) (exGroupB [])) = Active \<and>
   find (\<lambda>q. \<not> used q) (questions (exGame Active 4 (exGroupA [] False) (exGroupB [])))
     = Some \<lparr>question_id = js ''q4'', question_text = js ''Q-B2'',
             question_answer = js ''ans-B2'', used = False\<rparr> \<and>
   map_of (gameConnections (exState (exGame Active 4 (exGroupA [] False) (exGroupB [])))) (js ''g1'')
     = Some exConnections \<and>
   getGame (storage (handleMessage
       (exState (exGame Active 4 (exGroupA [] False) (exGroupB []))) exHostSocket (js ''g1'')
       NextQuestion)) (js ''g1'')
     = Some (exGame Active 5 (exGroupA [] False) (exGroupB [])) \<and>
   currentQuestion (exGame Active 5 (exGroupA [] False) (exGroupB []))
     = Some \<lparr>cq_id = js ''q4'', cq_question = js ''Q-B2'', cq_timeLimit = 30\<rparr> \<and>
   newMessages (exState (exGame Active 4 (exGroupA [] False) (exGroupB [])))
       (handleMessage (exState (exGame Active 4 (exGroupA [] False) (exGroupB [])))
          exHostSocket (js ''g1'') NextQuestion)
     = [(0, hostUpdate (exGame Active 5 (exGroupA [] False) (exGroupB []))),
        (1, playerUpdate (exGame Active 5 (exGroupA [] False) (exGroupB [])) (exGroupA [] False)),
        (3, playerUpdate (exGame Active 5 (exGroupA [] False) (exGroupB [])) (exGroupB []))] \<and>
   list_all (\<lambda>im. case snd im of
        GameUpdateHost v \<Rightarrow>
          hv_status v = Active \<and>
          hv_currentQuestion v
            = Some \<lparr>cq_id = js ''q4'', cq_question = js ''Q-B2'', cq_timeLimit = 30\<rparr>
      | GameUpdatePlayer v \<Rightarrow>
          pv_status v = Active \<and>
          pv_currentQuestion v
            = Some \<lparr>cq_id = js ''q4'', cq_question = js ''Q-B2'', cq_timeLimit = 30\<rparr>
      | _ \<Rightarrow> False)
     (newMessages (exState (exGame Active 4 (exGroupA [] False) (exGroupB [])))
        (handleMessage (exState (exGame Active 4 (exGroupA [] False) (exGroupB [])))
           exHostSocket (js ''g1'') NextQuestion))"
proof -
  let ?G = "exGame Active 9 (exGroupA [] False) (exGroupB [])"
  let ?GC = "exGame Completed 9 (exGroupA [] False) (exGroupB [])"
  let ?H = "exGame Active 4 (exGroupA [] False) (exGroupB [])"
  let ?H' = "exGame Active 5 (exGroupA [] False) (exGroupB [])"
  let ?q = "\<lparr>question_id = js ''q4'', question_text = js ''Q-B2'',
             question_answer = js ''ans-B2'', used = False\<rparr>"
  have a: "getGame (storage (exState ?G)) (js ''g1'') = Some ?G"
    by (simp add: getGame_def exState_def)
  have b: "status ?G = Active" by (simp add: exGame_def)
  have c: "find (\<lambda>q. \<not> used q) (questions ?G) = None" by code_simp
  have d: "map_of (gameConnections (exState ?G)) (js ''g1'') = Some exConnections"
    by (simp add: exState_def)
  have e: "?G\<lparr>status := Completed\<rparr> = ?GC" by (simp add: exGame_def)
  have f: "map (\<lambda>entry. (socket_id (snd entry), GameOver (js ''All questions have been answered'')))
             (filter (\<lambda>entry. readyState (snd entry) = WS_OPEN) exConnections) @
           gameUpdateViews ?GC exConnections
     = [(0, GameOver (js ''All questions have been answered'')),
        (1, GameOver (js ''All questions have been answered'')),
        (3, GameOver (js ''All questions have been answered'')),
        (0, hostUpdate ?GC), (1, playerUpdate ?GC (exGroupA [] False)),
        (3, playerUpdate ?GC (exGroupB []))]"
    by code_simp
  note t = next_question_outcome[OF a b, of exHostSocket, THEN conjunct1, rule_format, OF c,
      unfolded e]
  note t1 = t[THEN conjunct1]
  note t2 = trans[OF t[THEN conjunct2, rule_format, OF d] f]
  have a': "getGame (storage (exState ?H)) (js ''g1'') = Some ?H"
    by (simp add: getGame_def exState_def)
  have b': "status ?H = Active" by (simp add: exGame_def)
  have c': "find (\<lambda>q. \<not> used q) (questions ?H) = Some ?q" by code_simp
  have d': "map_of (gameConnections (exState ?H)) (js ''g1'') = Some exConnections"
    by (simp add: exState_def)
  have e': "?H\<lparr>questions := updateFirst (\<lambda>q. \<not> used q) (\<lambda>q. q\<lparr>used := True\<rparr>) (questions ?H),
               currentQuestion := Some \<lparr>cq_id = question_id ?q, cq_question = question_text ?q,
                  cq_timeLimit = answerTime ?H\<rparr>\<rparr> = ?H'"
    by code_simp
  have q': "Some \<lparr>cq_id = question_id ?q, cq_question = question_text ?q,
                  cq_timeLimit = answerTime ?H\<rparr>
      = Some \<lparr>cq_id = js ''q4'', cq_question = js ''Q-B2'', cq_timeLimit = 30\<rparr>"
    by (simp add: exGame_def)
  have f': "gameUpdateViews ?H' exConnections
     = [(0, hostUpdate ?H'), (1, playerUpdate ?H' (exGroupA [] False)),
        (3, playerUpdate ?H' (exGroupB []))]"
    by code_simp
  have g': "currentQuestion ?H'
     = Some \<lparr>cq_id = js ''q4'', cq_question = js ''Q-B2'', cq_timeLimit = 30\<rparr>"
    by code_simp
  note u = next_question_outcome[OF a' b', of exHostSocket, THEN conjunct2, rule_format, OF c',
      unfolded e', unfolded q']
  note u1 = u[THEN conjunct1]
  note u2 = trans[OF u[THEN conjunct2, rule_format, OF d', THEN conjunct1] f']
  note u3 = u[THEN conjunct2, rule_format, OF d', THEN conjunct2, folded list_all_iff]
  show ?thesis using a b c d t1 t2 a' b' c' d' u1 g' u2 u3 by (intro conjI)
qed

lemma mapSet_same: "map_of m k = Some v \<Longrightarrow> mapSet m k v = m"
  by (induction m) (auto split: if_splits)

lemma revealGroups_no_votes:
  "votesOfGame (gameAnswers s) gameId = [] \<Longrightarrow> revealGroups s gameId n grps = (None, s)"
  by (induction grps) (simp_all add: revealGroup_def)

lemma clearVotes_cleared:
  "votesOfGame (gameAnswers s) gameId = [] \<Longrightarrow> clearVotes s gameId = s"
  by (auto simp: clearVotes_def votesOfGame_def mapHas_def mapSet_same split: option.splits)

text \<open>
  Claim C3. A \<open>reveal_answer\<close> that finds the votes of the game cleared, as a first reveal
  leaves them, writes nothing to the storage, leaves the votes as they are and sends no
  \<open>bingo_achieved\<close> message.
\<close>

theorem second_reveal_noop:
  assumes "votesOfGame (gameAnswers s) gameId = []"
  shows "storage (handleMessage s ws gameId (RevealAnswer cellId position)) = storage s \<and>
         gameAnswers (handleMessage s ws gameId (RevealAnswer cellId position)) = gameAnswers s \<and>
         list_all (\<lambda>im. \<not> isBingoAchieved (snd im))
           (newMessages s (handleMessage s ws gameId (RevealAnswer cellId position)))"
proof -
  have h: "handleMessage s ws gameId (RevealAnswer cellId position)
      = handleRevealAnswer s gameId cellId position"
    by (simp add: handleMessage_def dispatch_def)
  have "(\<exists>e. handleRevealAnswer s gameId cellId position = logError s e) \<or>
        handleRevealAnswer s gameId cellId position = sendGameUpdate s gameId"
  proof (cases "getGame (storage s) gameId")
    case None
    then show ?thesis by (auto simp: handleRevealAnswer_def)
  next
    case (Some game)
    then show ?thesis
      using revealGroups_no_votes[OF assms, of "boardSize game" "groups game"]
        clearVotes_cleared[OF assms]
      by (cases "status game = Active") (auto simp: handleRevealAnswer_def)
  qed
  then consider (err) e where "handleRevealAnswer s gameId cellId position = logError s e"
    | (ok) "handleRevealAnswer s gameId cellId position = sendGameUpdate s gameId"
    by blast
  then show ?thesis
  proof cases
    case err
    then show ?thesis by (simp add: h newMessages_def)
  next
    case ok
    obtain ms where "sent (sendGameUpdate s gameId) = sent s @ ms"
      "list_all (\<lambda>im. \<not> isBingoAchieved (snd im)) ms"
      using sendGameUpdate_sent by blast
    then show ?thesis by (simp add: h ok newMessages_def)
  qed
qed

theorem second_reveal_noop_witness:
  "votesOfGame (gameAnswers exRevealed) (js ''g1'') = [] \<and>
   storage (handleMessage exRevealed exHostSocket (js ''g1'')
              (RevealAnswer (js ''cell-A1'') (js ''A1''))) = storage exRevealed \<and>
   list_all (\<lambda>im. \<not> isBingoAchieved (snd im))
     (newMessages exRevealed (handleMessage exRevealed exHostSocket (js ''g1'')
        (RevealAnswer (js ''cell-A1'') (js ''A1''))))"
proof -
  have a: "votesOfGame (gameAnswers exRevealed) (js ''g1'') = []" by code_simp
  show ?thesis
    using a second_reveal_noop[OF a, of exHostSocket "js ''cell-A1''" "js ''A1''"]
    by simp
qed

lemma find_map_keep:
  assumes "\<And>x. P (h x) = P x" and "\<And>x. P x \<Longrightarrow> h x = x"
  shows "find P (map h xs) = find P xs"
  using assms by (induction xs) auto

lemma findPlayerGroup_other_boards:
  "findPlayerGroup
     (game\<lparr>groups := map (\<lambda>g. if list_ex (\<lambda>p. player_id p = pid) (players g) then g
                             else g\<lparr>board := f g\<rparr>) (groups game)\<rparr>) pid
   = findPlayerGroup game pid"
  unfolding findPlayerGroup_def
  by (simp, rule find_map_keep) auto

lemma sendPlayerUpdate_sent_cases:
  "sent (sendPlayerUpdate game s (pid, c)) = sent s \<or>
   (\<exists>grp. pid \<noteq> js ''host'' \<and> findPlayerGroup game pid = Some grp \<and>
      sent (sendPlayerUpdate game s (pid, c)) = sent s @ [(socket_id c, playerUpdate game grp)])"
  by (auto simp: sendPlayerUpdate_def split: option.splits)

lemma foldl_sendPlayerUpdate_sent:
  "\<exists>ms. sent (foldl (sendPlayerUpdate game) s conns) = sent s @ ms \<and>
     (\<forall>im\<in>set ms. \<exists>pid c grp. (pid, c) \<in> set conns \<and> pid \<noteq> js ''host'' \<and>
         fst im = socket_id c \<and> findPlayerGroup game pid = Some grp \<and>
         snd im = playerUpdate game grp)"
proof (induction conns arbitrary: s)
  case Nil
  show ?case by simp
next
  case (Cons e conns)
  obtain pid c where e: "e = (pid, c)" by (cases e)
  obtain ms where ms: "sent (foldl (sendPlayerUpdate game) (sendPlayerUpdate game s e) conns)
      = sent (sendPlayerUpdate game s e) @ ms"
     "\<forall>im\<in>set ms. \<exists>pid c grp. (pid, c) \<in> set conns \<and> pid \<noteq> js ''host'' \<and>
         fst im = socket_id c \<and> findPlayerGroup game pid = Some grp \<and>
         snd im = playerUpdate game grp"
    using Cons.IH by blast
  from sendPlayerUpdate_sent_cases[of game s pid c]
  show ?case
  proof
    assume "sent (sendPlayerUpdate game s (pid, c)) = sent s"
    then show ?thesis using ms e by (intro exI[of _ ms]) fastforce
  next
    assume "\<exists>grp. pid \<noteq> js ''host'' \<and> findPlayerGroup game pid = Some grp \<and>
      sent (sendPlayerUpdate game s (pid, c)) = sent s @ [(socket_id c, playerUpdate game grp)]"
    then obtain grp where grp: "pid \<noteq> js ''host''" "findPlayerGroup game pid = Some grp"
      "sent (sendPlayerUpdate game s (pid, c)) = sent s @ [(socket_id c, playerUpdate game grp)]"
      by blast
    show ?thesis
      using ms e grp
      by (intro exI[of _ "(socket_id c, playerUpdate game grp) # ms"]) fastforce
  qed
qed

lemma findPlayerGroup_Some:
  "findPlayerGroup game pid = Some grp \<Longrightarrow>
   grp \<in> set (groups game) \<and> (\<exists>p\<in>set (players grp). player_id p = pid)"
  by (auto simp: findPlayerGroup_def find_Some_iff list_ex_iff)

text \<open>
  Claim C9. Every message of \<open>sendGameUpdate\<close> is either the host's snapshot, with all
  groups and the current question, on the socket registered as \<open>host\<close>, or a player's
  snapshot on that player's socket, whose only group is the player's own group, with the
  current question. The snapshot written for a player is the same when the boards of the
  groups the player is not in are replaced by anything else.
\<close>

theorem game_update_scoped:
  assumes g: "getGame (storage s) gameId = Some game"
    and c: "map_of (gameConnections s) gameId = Some conns"
  shows "(\<forall>im\<in>set (newMessages s (sendGameUpdate s gameId)).
           case snd im of
             GameUpdateHost v \<Rightarrow>
               hv_groups v = groups game \<and> hv_currentQuestion v = currentQuestion game \<and>
               (\<exists>hostConnection. map_of conns (js ''host'') = Some hostConnection \<and>
                  fst im = socket_id hostConnection)
           | GameUpdatePlayer v \<Rightarrow>
               pv_currentQuestion v = currentQuestion game \<and>
               pv_currentGroup v \<in> set (groups game) \<and>
               (\<exists>pid connection. (pid, connection) \<in> set conns \<and> pid \<noteq> js ''host'' \<and>
                  fst im = socket_id connection \<and>
                  findPlayerGroup game pid = Some (pv_currentGroup v) \<and>
                  (\<exists>p\<in>set (players (pv_currentGroup v)). player_id p = pid))
           | _ \<Rightarrow> False) \<and>
         sendPlayerUpdate
           (game\<lparr>groups := map (\<lambda>g. if list_ex (\<lambda>p. player_id p = pid) (players g) then g
                                   else g\<lparr>board := f g\<rparr>) (groups game)\<rparr>) s (pid, connection)
           = sendPlayerUpdate game s (pid, connection)"
proof
  define s1 where "s1 = (case map_of conns (js ''host'') of None \<Rightarrow> s
       | Some hostConnection \<Rightarrow> sendIfOpen s hostConnection (hostUpdate game))"
  have u: "sendGameUpdate s gameId = foldl (sendPlayerUpdate game) s1 conns"
    using g c by (simp add: sendGameUpdate_def s1_def)
  have h: "\<exists>m1. sent s1 = sent s @ m1 \<and>
      (\<forall>im\<in>set m1. snd im = hostUpdate game \<and>
         (\<exists>hostConnection. map_of conns (js ''host'') = Some hostConnection \<and>
                  fst im = socket_id hostConnection))"
    by (auto simp: s1_def sendIfOpen_sent split: option.splits)
  then obtain m1 where m1: "sent s1 = sent s @ m1"
    "\<forall>im\<in>set m1. snd im = hostUpdate game \<and>
         (\<exists>hostConnection. map_of conns (js ''host'') = Some hostConnection \<and>
                  fst im = socket_id hostConnection)" by blast
  obtain m2 where m2: "sent (foldl (sendPlayerUpdate game) s1 conns) = sent s1 @ m2"
     "\<forall>im\<in>set m2. \<exists>pid c grp. (pid, c) \<in> set conns \<and> pid \<noteq> js ''host'' \<and>
         fst im = socket_id c \<and> findPlayerGroup game pid = Some grp \<and>
         snd im = playerUpdate game grp"
    using foldl_sendPlayerUpdate_sent by blast
  have n: "newMessages s (sendGameUpdate s gameId) = m1 @ m2"
    by (simp add: newMessages_def u m1 m2)
  show "\<forall>im\<in>set (newMessages s (sendGameUpdate s gameId)).
           case snd im of
             GameUpdateHost v \<Rightarrow>
               hv_groups v = groups game \<and> hv_currentQuestion v = currentQuestion game \<and>
               (\<exists>hostConnection. map_of conns (js ''host'') = Some hostConnection \<and>
                  fst im = socket_id hostConnection)
           | GameUpdatePlayer v \<Rightarrow>
               pv_currentQuestion v = currentQuestion game \<and>
               pv_currentGroup v \<in> set (groups game) \<and>
               (\<exists>pid connection. (pid, connection) \<in> set conns \<and> pid \<noteq> js ''host'' \<and>
                  fst im = socket_id connection \<and>
                  findPlayerGroup game pid = Some (pv_currentGroup v) \<and>
                  (\<exists>p\<in>set (players (pv_currentGroup v)). player_id p = pid))
           | _ \<Rightarrow> False"
  proof
    fix im assume "im \<in> set (newMessages s (sendGameUpdate s gameId))"
    then consider "im \<in> set m1" | "im \<in> set m2" using n by auto
    then show "case snd im of
             GameUpdateHost v \<Rightarrow>
               hv_groups v = groups game \<and> hv_currentQuestion v = currentQuestion game \<and>
               (\<exists>hostConnection. map_of conns (js ''host'') = Some hostConnection \<and>
                  fst im = socket_id hostConnection)
           | GameUpdatePlayer v \<Rightarrow>
               pv_currentQuestion v = currentQuestion game \<and>
               pv_currentGroup v \<in> set (groups game) \<and>
               (\<exists>pid connection. (pid, connection) \<in> set conns \<and> pid \<noteq> js ''host'' \<and>
                  fst im = socket_id connection \<and>
                  findPlayerGroup game pid = Some (pv_currentGroup v) \<and>
                  (\<exists>p\<in>set (players (pv_currentGroup v)). player_id p = pid))
           | _ \<Rightarrow> False"
    proof cases
      case 1
      then show ?thesis using m1(2) by (auto simp: hostUpdate_def)
    next
      case 2
      then obtain pid c grp where p: "(pid, c) \<in> set conns" "pid \<noteq> js ''host''"
         "fst im = socket_id c" "findPlayerGroup game pid = Some grp"
         "snd im = playerUpdate game grp"
        using m2(2) by blast
      show ?thesis
        using p findPlayerGroup_Some[OF p(4)] by (auto simp: playerUpdate_def)
    qed
  qed
next
  show "sendPlayerUpdate
           (game\<lparr>groups := map (\<lambda>g. if list_ex (\<lambda>p. player_id p = pid) (players g) then g
                                   else g\<lparr>board := f g\<rparr>) (groups game)\<rparr>) s (pid, connection)
           = sendPlayerUpdate game s (pid, connection)"
    by (simp add: sendPlayerUpdate_def findPlayerGroup_other_boards playerUpdate_def
        split: option.splits)
qed

lemma ex_newMessages:
  "newMessages (exState (exGame Active 4 (exGroupA [] False) (exGroupB [])))
     (sendGameUpdate (exState (exGame Active 4 (exGroupA [] False) (exGroupB []))) (js ''g1''))
   = [(0, hostUpdate (exGame Active 4 (exGroupA [] False) (exGroupB []))),
      (1, playerUpdate (exGame Active 4 (exGroupA [] False) (exGroupB [])) (exGroupA [] False)),
      (3, playerUpdate (exGame Active 4 (exGroupA [] False) (exGroupB [])) (exGroupB []))]"
  by code_simp

theorem game_update_scoped_witness:
  "getGame (storage (exState (exGame Active 4 (exGroupA [] False) (exGroupB [])))) (js ''g1'')
     = Some (exGame Active 4 (exGroupA [] False) (exGroupB [])) \<and>
   map_of (gameConnections (exState (exGame Active 4 (exGroupA [] False) (exGroupB []))))
     (js ''g1'') = Some exConnections \<and>
   (1, playerUpdate (exGame Active 4 (exGroupA [] False) (exGroupB [])) (exGroupA [] False))
     \<in> set (newMessages (exState (exGame Active 4 (exGroupA [] False) (exGroupB [])))
         (sendGameUpdate (exState (exGame Active 4 (exGroupA [] False) (exGroupB [])))
            (js ''g1''))) \<and>
   list_all (\<lambda>im.
      case snd im of
        GameUpdateHost v \<Rightarrow>
          hv_groups v = groups (exGame Active 4 (exGroupA [] False) (exGroupB [])) \<and>
          hv_currentQuestion v
            = currentQuestion (exGame Active 4 (exGroupA [] False) (exGroupB [])) \<and>
          (\<exists>hostConnection. map_of exConnections (js ''host'') = Some hostConnection \<and>
             fst im = socket_id hostConnection)
      | GameUpdatePlayer v \<Rightarrow>
          pv_currentQuestion v
            = currentQuestion (exGame Active 4 (exGroupA [] False) (exGroupB [])) \<and>
          pv_currentGroup v \<in> set (groups (exGame Active 4 (exGroupA [] False) (exGroupB []))) \<and>
          (\<exists>pid connection. (pid, connection) \<in> set exConnections \<and> pid \<noteq> js ''host'' \<and>
             fst im = socket_id connection \<and>
             findPlayerGroup (exGame Active 4 (exGroupA [] False) (exGroupB [])) pid
               = Some (pv_currentGroup v) \<and>
             (\<exists>p\<in>set (players (pv_currentGroup v)). player_id p = pid))
      | _ \<Rightarrow> False)
     (newMessages (exState (exGame Active 4 (exGroupA [] False) (exGroupB [])))
        (sendGameUpdate (exState (exGame Active 4 (exGroupA [] False) (exGroupB [])))
           (js ''g1''))) \<and>
   sendPlayerUpdate (exGame Active 4 (exGroupA [] False) (exGroupB [js ''B2'']))
       (exState (exGame Active 4 (exGroupA [] False) (exGroupB []))) (js ''p1'', exSocket1)
     = sendPlayerUpdate (exGame Active 4 (exGroupA [] False) (exGroupB []))
         (exState (exGame Active 4 (exGroupA [] False) (exGroupB []))) (js ''p1'', exSocket1)"
proof -
  let ?G = "exGame Active 4 (exGroupA [] False) (exGroupB [])"
  have a: "getGame (storage (exState ?G)) (js ''g1'') = Some ?G"
    by (simp add: getGame_def exState_def)
  have c: "map_of (gameConnections (exState ?G)) (js ''g1'') = Some exConnections"
    by (simp add: exState_def)
  have m: "(1, playerUpdate ?G (exGroupA [] False))
     \<in> set (newMessages (exState ?G) (sendGameUpdate (exState ?G) (js ''g1'')))"
    by code_simp
  have e: "?G\<lparr>groups := map (\<lambda>g. if list_ex (\<lambda>p. player_id p = js ''p1'') (players g) then g
                 else g\<lparr>board := exBoard [js ''B2'']\<rparr>) (groups ?G)\<rparr>
      = exGame Active 4 (exGroupA [] False) (exGroupB [js ''B2''])"
    by code_simp
  note t = game_update_scoped[OF a c, of "js ''p1''" "\<lambda>g. exBoard [js ''B2'']" exSocket1]
  show ?thesis
    using a c m t[THEN conjunct1, folded list_all_iff] t[THEN conjunct2, unfolded e]
    by (intro conjI)
qed

section \<open>Votes and re-votes\<close>

lemma map_of_mapSet_upd: "map_of (mapSet m k v) = (map_of m)(k \<mapsto> v)"
  by (rule ext) (simp add: map_of_mapSet)

lemma keys_mapSet:
  "map fst (mapSet m k v) = (if k \<in> fst ` set m then map fst m else map fst m @ [k])"
proof (induction m)
  case Nil
  show ?case by simp
next
  case (Cons e m)
  obtain k' v' where e: "e = (k', v')" by (cases e)
  show ?case
  proof (cases "k' = k")
    case True
    then show ?thesis by (simp add: e)
  next
    case False
    then show ?thesis using Cons.IH by (simp add: e)
  qed
qed

lemma set_keys_mapSet: "fst ` set (mapSet m k v) = insert k (fst ` set m)"
  using arg_cong[OF keys_mapSet[of m k v], of set] by (auto split: if_splits)




lemma foldl_mapSet_keys:
  "set (map fst (foldl (\<lambda>m v. mapSet m (fst v) (snd v)) m vs)) = set (map fst m) \<union> set (map fst vs)"
  by (induction vs arbitrary: m) (auto simp: set_keys_mapSet)

lemma getCount_mapSet:
  "getCount (mapSet m x n) c = (if c = x then n else getCount m c)"
  by (simp add: getCount_def map_of_mapSet)

lemma getCount_foldl:
  "getCount (foldl (\<lambda>answerCounts cellId.
       mapSet answerCounts cellId (getCount answerCounts cellId + 1)) m cs) c
   = getCount m c + count_list cs c"
  by (induction cs arbitrary: m) (simp_all add: getCount_mapSet)

lemma getCount_countAnswers: "getCount (countAnswers cs) c = count_list cs c"
  by (simp only: countAnswers_def getCount_foldl) (simp add: getCount_def)

lemma count_list_filter: "count_list xs c = length (filter (\<lambda>x. x = c) xs)"
  by (induction xs) auto




















section \<open>What the handlers keep\<close>































lemma bingoCheck_cases:
  "(\<exists>r. bingoCheck s gameId grp n = (r, s)) \<or>
   (\<exists>pattern st. setGroupBingo (storage s) gameId (group_id grp) pattern = Inr st \<and>
      bingoCheck s gameId grp n =
        (None, broadcast (s\<lparr>storage := st\<rparr>) gameId
           (BingoAchieved (group_id grp) (group_name grp) (players grp) pattern n)))"
  by (auto simp: bingoCheck_def split: sum.splits option.splits)

lemma bingoCheck_frame:
  "gameAnswers (snd (bingoCheck s gameId grp n)) = gameAnswers s"
  "gameConnections (snd (bingoCheck s gameId grp n)) = gameConnections s"
  "errorLog (snd (bingoCheck s gameId grp n)) = errorLog s"
  "timers (snd (bingoCheck s gameId grp n)) = timers s"
  using bingoCheck_cases[of s gameId grp n] by auto


lemma bingoCheck_sent:
  "\<exists>ms. sent (snd (bingoCheck s gameId grp n)) = sent s @ ms \<and>
     (\<forall>im\<in>set ms. \<exists>pattern.
        snd im = BingoAchieved (group_id grp) (group_name grp) (players grp) pattern n)"
  using bingoCheck_cases[of s gameId grp n]
  by (auto simp: broadcast_sent split: option.splits)


lemma checkGroupConsensus_cases:
  "checkGroupConsensus s gameId groupId = s \<or>
   (\<exists>e. checkGroupConsensus s gameId groupId = logError s e) \<or>
   (\<exists>game grp c st. getGame (storage s) gameId = Some game \<and>
      find (\<lambda>g. group_id g = groupId) (groups game) = Some grp \<and>
      groupConsensus (map pa_cellId (getGroupAnswers (storage s) gameId groupId)) = Some c \<and>
      setGroupAnswer (storage s) gameId groupId c = Inr st \<and>
      (checkGroupConsensus s gameId groupId
         = snd (bingoCheck (s\<lparr>storage := st\<rparr>) gameId grp (boardSize game)) \<or>
       (\<exists>e. checkGroupConsensus s gameId groupId
         = logError (snd (bingoCheck (s\<lparr>storage := st\<rparr>) gameId grp (boardSize game))) e)))"
  by (auto simp: checkGroupConsensus_def Let_def split: option.splits sum.splits prod.splits)

lemma checkGroupConsensus_frame:
  "gameAnswers (checkGroupConsensus s gameId groupId) = gameAnswers s"
  "gameConnections (checkGroupConsensus s gameId groupId) = gameConnections s"
  "timers (checkGroupConsensus s gameId groupId) = timers s"
  using checkGroupConsensus_cases[of s gameId groupId]
  by (auto simp: bingoCheck_frame)


lemma checkGroupConsensus_sent:
  "\<exists>ms. sent (checkGroupConsensus s gameId groupId) = sent s @ ms \<and>
     (\<forall>im\<in>set ms.
        (\<exists>nm members pattern n. snd im = BingoAchieved groupId nm members pattern n) \<and>
        (\<exists>c st. groupConsensus (map pa_cellId (getGroupAnswers (storage s) gameId groupId))
                   = Some c \<and>
                 setGroupAnswer (storage s) gameId groupId c = Inr st))"
  using checkGroupConsensus_cases[of s gameId groupId]
proof (elim disjE exE conjE)
  fix game grp c st
  assume f: "find (\<lambda>g. group_id g = groupId) (groups game) = Some grp"
    and g: "groupConsensus (map pa_cellId (getGroupAnswers (storage s) gameId groupId)) = Some c"
    and a: "setGroupAnswer (storage s) gameId groupId c = Inr st"
  have i: "group_id grp = groupId" using f by (auto simp: find_Some_iff)
  obtain ms where ms: "sent (snd (bingoCheck (s\<lparr>storage := st\<rparr>) gameId grp (boardSize game)))
       = sent s @ ms"
     "\<forall>im\<in>set ms. \<exists>pattern.
        snd im = BingoAchieved (group_id grp) (group_name grp) (players grp) pattern (boardSize game)"
    using bingoCheck_sent[of "s\<lparr>storage := st\<rparr>" gameId grp "boardSize game"] by auto
  {
    assume b: "checkGroupConsensus s gameId groupId
         = snd (bingoCheck (s\<lparr>storage := st\<rparr>) gameId grp (boardSize game))"
    show ?thesis
      unfolding b using ms g a i by (intro exI[of _ ms]) auto
  next
    fix e
    assume b: "checkGroupConsensus s gameId groupId
         = logError (snd (bingoCheck (s\<lparr>storage := st\<rparr>) gameId grp (boardSize game))) e"
    show ?thesis
      unfolding b using ms g a i by (intro exI[of _ ms]) auto
  }
qed auto

lemma revealGroup_cases:
  "(\<exists>r. revealGroup s gameId n grp = (r, s)) \<or>
   (\<exists>votes c st1 e. recordPlayerAnswer (storage s) gameId (js ''group'') (group_id grp) c = Inr st1 \<and>
      revealGroup s gameId n grp = (Some e, s\<lparr>storage := st1\<rparr>)) \<or>
   (\<exists>votes c st1 st2. map_of (votesOfGame (gameAnswers s) gameId) (group_id grp) = Some votes \<and>
      revealConsensus votes = Some c \<and>
      recordPlayerAnswer (storage s) gameId (js ''group'') (group_id grp) c = Inr st1 \<and>
      setGroupAnswer st1 gameId (group_id grp) c = Inr st2 \<and>
      revealGroup s gameId n grp = bingoCheck (s\<lparr>storage := st2\<rparr>) gameId grp n)"
  by (auto simp: revealGroup_def split: option.splits sum.splits)



lemma revealGroup_sent:
  "\<exists>ms. sent (snd (revealGroup s gameId n grp)) = sent s @ ms \<and>
     (\<forall>im\<in>set ms.
        (\<exists>nm members pattern k. snd im = BingoAchieved (group_id grp) nm members pattern k) \<and>
        (\<exists>votes c st1 st2.
           map_of (votesOfGame (gameAnswers s) gameId) (group_id grp) = Some votes \<and>
           revealConsensus votes = Some c \<and>
           recordPlayerAnswer (storage s) gameId (js ''group'') (group_id grp) c = Inr st1 \<and>
           setGroupAnswer st1 gameId (group_id grp) c = Inr st2))"
  using revealGroup_cases[of s gameId n grp]
proof (elim disjE exE conjE)
  fix votes c st1 st2
  assume v: "map_of (votesOfGame (gameAnswers s) gameId) (group_id grp) = Some votes"
    "revealConsensus votes = Some c"
    "recordPlayerAnswer (storage s) gameId (js ''group'') (group_id grp) c = Inr st1"
    "setGroupAnswer st1 gameId (group_id grp) c = Inr st2"
    and b: "revealGroup s gameId n grp = bingoCheck (s\<lparr>storage := st2\<rparr>) gameId grp n"
  obtain ms where ms: "sent (snd (bingoCheck (s\<lparr>storage := st2\<rparr>) gameId grp n)) = sent s @ ms"
     "\<forall>im\<in>set ms. \<exists>pattern.
        snd im = BingoAchieved (group_id grp) (group_name grp) (players grp) pattern n"
    using bingoCheck_sent[of "s\<lparr>storage := st2\<rparr>" gameId grp n] by auto
  show ?thesis
    unfolding b using ms v by (intro exI[of _ ms]) blast
qed auto



lemma revealGroups_sent:
  "\<exists>ms. sent (snd (revealGroups s gameId n grps)) = sent s @ ms"
proof (induction grps arbitrary: s)
  case Nil
  show ?case by simp
next
  case (Cons grp rest)
  obtain r s' where r: "revealGroup s gameId n grp = (r, s')" by (cases "revealGroup s gameId n grp")
  obtain m1 where m1: "sent s' = sent s @ m1"
    using revealGroup_sent[of s gameId n grp] r by auto
  obtain m2 where m2: "sent (snd (revealGroups s' gameId n rest)) = sent s' @ m2"
    using Cons.IH by blast
  show ?case using r m1 m2 by (cases r) auto
qed





lemma sendHostSelected_simps [simp]:
  "storage (sendHostSelected game c p t s e) = storage s"
  "gameAnswers (sendHostSelected game c p t s e) = gameAnswers s"
  "gameConnections (sendHostSelected game c p t s e) = gameConnections s"
  "errorLog (sendHostSelected game c p t s e) = errorLog s"
  by (simp_all add: sendHostSelected_def split: prod.splits)


lemma sendVoteToPlayer_simps [simp]:
  "storage (sendVoteToPlayer conns m s p) = storage s"
  "gameAnswers (sendVoteToPlayer conns m s p) = gameAnswers s"
  "gameConnections (sendVoteToPlayer conns m s p) = gameConnections s"
  "errorLog (sendVoteToPlayer conns m s p) = errorLog s"
  by (simp_all add: sendVoteToPlayer_def split: option.splits)

lemma sendPlayerVote_simps [simp]:
  "storage (sendPlayerVote s gameId grp playerId cellId options) = storage s"
  "gameConnections (sendPlayerVote s gameId grp playerId cellId options) = gameConnections s"
  "errorLog (sendPlayerVote s gameId grp playerId cellId options) = errorLog s"
  by (simp_all add: sendPlayerVote_def Let_def foldl_keeps split: option.splits)
















section \<open>The outcomes of the answer handlers\<close>




























lemma clearVotes_simps [simp]:
  "storage (clearVotes s g) = storage s" "sent (clearVotes s g) = sent s"
  "gameConnections (clearVotes s g) = gameConnections s" "errorLog (clearVotes s g) = errorLog s"
  by (simp_all add: clearVotes_def)







section \<open>Bingo permanence and storage failures\<close>














section \<open>Consensus of a group\<close>

text \<open>
  The counts of \<open>checkGroupConsensus\<close> hold one entry per cell id, in the order of the first
  vote for each, with the number of votes for it.
\<close>

lemma countAnswers_keys_snoc:
  "map fst (countAnswers (cs @ [c]))
     = (if c \<in> set cs then map fst (countAnswers cs) else map fst (countAnswers cs) @ [c])"
    and countAnswers_keys_set: "fst ` set (countAnswers cs) = set cs"
proof -
  have k: "fst ` set (countAnswers cs) = set cs" for cs
  proof (induction cs rule: rev_induct)
    case Nil
    show ?case by (simp add: countAnswers_def)
  next
    case (snoc c cs)
    then show ?case by (simp add: countAnswers_def set_keys_mapSet)
  qed
  show "fst ` set (countAnswers cs) = set cs" by (rule k)
  show "map fst (countAnswers (cs @ [c]))
     = (if c \<in> set cs then map fst (countAnswers cs) else map fst (countAnswers cs) @ [c])"
    using k[of cs] by (simp add: countAnswers_def keys_mapSet)
qed

lemma countAnswers_distinct: "distinct (map fst (countAnswers cs))"
  by (induction cs rule: rev_induct) (simp_all add: countAnswers_keys_snoc countAnswers_keys_set, simp add: countAnswers_def)

lemma find_snoc: "find P (xs @ [x]) = (case find P xs of None \<Rightarrow> (if P x then Some x else None) | Some y \<Rightarrow> Some y)"
  by (induction xs) auto

lemma countAnswers_find: "find P (map fst (countAnswers cs)) = find P cs"
proof (induction cs rule: rev_induct)
  case Nil
  show ?case by (simp add: countAnswers_def)
next
  case (snoc c cs)
  show ?case
  proof (cases "c \<in> set cs")
    case True
    have "find P cs = None \<Longrightarrow> \<not> P c" using True by (auto simp: find_None_iff)
    then show ?thesis
      using True snoc by (auto simp: countAnswers_keys_snoc find_snoc split: option.splits)
  next
    case False
    then show ?thesis
      using snoc by (simp add: countAnswers_keys_snoc find_snoc)
  qed
qed

lemma countAnswers_entries:
  "countAnswers cs = map (\<lambda>k. (k, count_list cs k)) (map fst (countAnswers cs))"
proof -
  have "snd e = count_list cs (fst e)" if "e \<in> set (countAnswers cs)" for e
  proof -
    have "map_of (countAnswers cs) (fst e) = Some (snd e)"
      by (rule map_of_is_SomeI[OF countAnswers_distinct]) (simp add: that)
    then show ?thesis
      using getCount_countAnswers[of cs "fst e"] by (simp add: getCount_def)
  qed
  then have "map (\<lambda>e. (fst e, count_list cs (fst e))) (countAnswers cs) = countAnswers cs"
    by (intro map_idI) (metis prod.collapse)
  then show ?thesis by (simp add: comp_def)
qed

text \<open>
  The walk over the counts keeps the first entry with the largest count.
\<close>

lemma ex_max_list: "xs \<noteq> [] \<Longrightarrow> \<exists>x\<in>set xs. \<forall>y\<in>set xs. (f y :: nat) \<le> f x"
proof (induction xs)
  case Nil
  then show ?case by simp
next
  case (Cons a xs)
  show ?case
  proof (cases "xs = []")
    case True
    then show ?thesis by simp
  next
    case False
    then obtain x where x: "x \<in> set xs" "\<forall>y\<in>set xs. f y \<le> f x" using Cons.IH by blast
    show ?thesis
    proof (cases "f x \<le> f a")
      case True
      then show ?thesis using x by (intro bexI[of _ a]) auto
    next
      case False
      then show ?thesis using x by (intro bexI[of _ x]) auto
    qed
  qed
qed

lemma find_max_Some:
  assumes "xs \<noteq> []"
  shows "\<exists>x. find (\<lambda>x. \<forall>y\<in>set xs. (f y :: nat) \<le> f x) xs = Some x"
proof -
  obtain x where "x \<in> set xs" "\<forall>y\<in>set xs. f y \<le> f x" using ex_max_list[OF assms] by blast
  then have "find (\<lambda>x. \<forall>y\<in>set xs. f y \<le> f x) xs \<noteq> None" by (auto simp: find_None_iff)
  then show ?thesis by auto
qed

lemma mostCommon_fold:
  "foldl (\<lambda>(mostCommonAnswer, highestCount) (cellId, count).
              if count > highestCount then (cellId, count)
              else (mostCommonAnswer, highestCount))
       (a, h :: nat) (map (\<lambda>k. (k, f k)) ks)
   = (case find (\<lambda>k. h < f k \<and> (\<forall>k'\<in>set ks. f k' \<le> f k)) ks of
        Some k \<Rightarrow> (k, f k) | None \<Rightarrow> (a, h))"
proof (induction ks arbitrary: a h)
  case Nil
  show ?case by simp
next
  case (Cons k ks)
  show ?case
  proof (cases "h < f k")
    case True
    note hk = True
    show ?thesis
    proof (cases "\<forall>k'\<in>set ks. f k' \<le> f k")
      case True
      have "\<not> f k < f x" if "x \<in> set ks" for x using bspec[OF True that] by simp
      then have "find (\<lambda>x. f k < f x \<and> (\<forall>k'\<in>set ks. f k' \<le> f x)) ks = None"
        unfolding find_None_iff by blast
      then show ?thesis using hk True by (simp add: Cons.IH)
    next
      case False
      then have ne: "ks \<noteq> []" by auto
      obtain m where m: "find (\<lambda>x. \<forall>y\<in>set ks. f y \<le> f x) ks = Some m"
        using find_max_Some[OF ne, of f] by blast
      have e1: "find (\<lambda>x. f k < f x \<and> (\<forall>k'\<in>set ks. f k' \<le> f x)) ks
                 = find (\<lambda>x. \<forall>y\<in>set ks. f y \<le> f x) ks"
        using False by (intro find_cong) (auto simp: not_le dest: bspec)
      have e2: "find (\<lambda>x. h < f x \<and> (\<forall>k'\<in>set (k # ks). f k' \<le> f x)) ks
                 = find (\<lambda>x. \<forall>y\<in>set ks. f y \<le> f x) ks"
        using False hk by (intro find_cong) (auto simp: not_le dest: bspec)
      show ?thesis using hk False e1 e2 m by (auto simp: Cons.IH)
    qed
  next
    case False
    have e: "find (\<lambda>x. h < f x \<and> (\<forall>k'\<in>set (k # ks). f k' \<le> f x)) ks
              = find (\<lambda>x. h < f x \<and> (\<forall>k'\<in>set ks. f k' \<le> f x)) ks"
      using False by (intro find_cong) auto
    show ?thesis using False e by (simp add: Cons.IH)
  qed
qed

text \<open>
  The per-vote path: on stored answers, whose cell ids are never empty, the tally of
  \<open>checkGroupConsensus\<close> is the consensus of the specification.
\<close>

lemma groupConsensus_resolve:
  assumes "[] \<notin> set cs"
  shows "groupConsensus cs = resolveConsensus cs"
proof (cases "cs = []")
  case True
  then show ?thesis
    by (simp add: groupConsensus_def resolveConsensus_def mostCommon_def countAnswers_def)
next
  case False
  let ?ks = "map fst (countAnswers cs)"
  let ?f = "count_list cs"
  have ks: "set ?ks = set cs" using countAnswers_keys_set[of cs] by simp
  have pos: "0 < ?f k" if "k \<in> set cs" for k using that by (metis count_list_0_iff gr0I)
  have "mostCommon (countAnswers cs)
          = (case find (\<lambda>k. 0 < ?f k \<and> (\<forall>k'\<in>set ?ks. ?f k' \<le> ?f k)) ?ks of
               Some k \<Rightarrow> (k, ?f k) | None \<Rightarrow> ([], 0))"
    unfolding mostCommon_def by (subst countAnswers_entries) (rule mostCommon_fold)
  also have "find (\<lambda>k. 0 < ?f k \<and> (\<forall>k'\<in>set ?ks. ?f k' \<le> ?f k)) ?ks
               = find (\<lambda>k. \<forall>d\<in>set cs. ?f d \<le> ?f k) ?ks"
    using pos ks by (intro find_cong) auto
  also have "\<dots> = find (\<lambda>k. \<forall>d\<in>set cs. ?f d \<le> ?f k) cs" by (rule countAnswers_find)
  finally have mc: "mostCommon (countAnswers cs)
          = (case find (\<lambda>k. \<forall>d\<in>set cs. ?f d \<le> ?f k) cs of
               Some k \<Rightarrow> (k, ?f k) | None \<Rightarrow> ([], 0))" .
  obtain m where m: "find (\<lambda>k. \<forall>d\<in>set cs. ?f d \<le> ?f k) cs = Some m"
    using find_max_Some[OF False, of ?f] by blast
  then have "m \<in> set cs" by (auto simp: find_Some_iff)
  then have "m \<noteq> []" using assms by auto
  then show ?thesis
    using m by (simp add: groupConsensus_def resolveConsensus_def mc list_all_iff)
qed

text \<open>
  The reveal path: the running leader of \<open>handleRevealAnswer\<close> is always a cell id with
  the highest count.
\<close>

lemma revealStep_fold:
  "foldl revealStep (countAnswers (map snd done), m, h) votes = (counts', m', h') \<Longrightarrow>
   (\<forall>d. count_list (map snd done) d \<le> h) \<Longrightarrow>
   (done = [] \<and> h = 0) \<or> (m \<in> snd ` set done \<and> count_list (map snd done) m = h) \<Longrightarrow>
   (\<forall>d. count_list (map snd (done @ votes)) d \<le> h') \<and>
   ((done @ votes = [] \<and> h' = 0) \<or>
    (m' \<in> snd ` set (done @ votes) \<and> count_list (map snd (done @ votes)) m' = h'))"
proof (induction votes arbitrary: "done" m h)
  case Nil
  then show ?case by simp
next
  case (Cons v votes)
  let ?c = "snd v"
  let ?n = "count_list (map snd done) ?c"
  have "countAnswers (map snd done @ [?c])
          = mapSet (countAnswers (map snd done)) ?c (Suc (getCount (countAnswers (map snd done)) ?c))"
    by (simp add: countAnswers_def)
  then have cnt: "countAnswers (map snd done @ [?c]) = mapSet (countAnswers (map snd done)) ?c (Suc ?n)"
    by (simp only: getCount_countAnswers)
  show ?case
  proof (cases "h < ?n + 1")
    case True
    have st: "revealStep (countAnswers (map snd done), m, h) v
                = (countAnswers (map snd (done @ [v])), ?c, ?n + 1)"
      using True by (simp add: revealStep_def getCount_countAnswers cnt Let_def)
    have f: "foldl revealStep (countAnswers (map snd (done @ [v])), ?c, ?n + 1) votes = (counts', m', h')"
      using Cons.prems(1) st by simp
    have p1: "\<forall>d. count_list (map snd (done @ [v])) d \<le> ?n + 1"
    proof
      fix d
      show "count_list (map snd (done @ [v])) d \<le> ?n + 1"
        using Cons.prems(2)[THEN spec, of d] True by (cases "d = ?c") auto
    qed
    have p2: "(done @ [v] = [] \<and> ?n + 1 = 0) \<or>
              (?c \<in> snd ` set (done @ [v]) \<and> count_list (map snd (done @ [v])) ?c = ?n + 1)"
      by simp
    from Cons.IH[OF f p1 p2] show ?thesis by simp
  next
    case False
    have st: "revealStep (countAnswers (map snd done), m, h) v
                = (countAnswers (map snd (done @ [v])), m, h)"
      using False by (simp add: revealStep_def getCount_countAnswers cnt Let_def)
    have f: "foldl revealStep (countAnswers (map snd (done @ [v])), m, h) votes = (counts', m', h')"
      using Cons.prems(1) st by simp
    have p1: "\<forall>d. count_list (map snd (done @ [v])) d \<le> h"
    proof
      fix d
      show "count_list (map snd (done @ [v])) d \<le> h"
        using Cons.prems(2)[THEN spec, of d] False by (cases "d = ?c") auto
    qed
    have m: "m \<in> snd ` set done \<and> count_list (map snd done) m = h"
      using Cons.prems(3) False by auto
    then have "m \<noteq> ?c" using False by auto
    then have p2: "(done @ [v] = [] \<and> h = 0) \<or>
              (m \<in> snd ` set (done @ [v]) \<and> count_list (map snd (done @ [v])) m = h)"
      using m by auto
    from Cons.IH[OF f p1 p2] show ?thesis by simp
  qed
qed

lemma revealConsensus_highest:
  assumes "revealConsensus votes = Some c"
  shows "c \<in> snd ` set votes \<and> (\<forall>d. count_list (map snd votes) d \<le> count_list (map snd votes) c)"
proof -
  obtain counts' m' h' where f: "foldl revealStep ([], [], 0) votes = (counts', m', h')"
    by (cases "foldl revealStep ([], [], 0) votes") auto
  have c: "m' = c" "m' \<noteq> []" using assms f by (auto simp: revealConsensus_def split: if_splits)
  have ne: "votes \<noteq> []" using f c by auto
  have "foldl revealStep (countAnswers (map snd []), [], 0) votes = (counts', m', h')"
    using f by (simp add: countAnswers_def)
  from revealStep_fold[OF this] ne c show ?thesis by simp
qed

text \<open>
  Claim C1 (consensus is the choice with the highest count, ties going to the choice whose
  first vote arrived first, on both paths). The reveal-time tally of \<open>handleRevealAnswer\<close>
  does not break ties that way: on the votes \<open>cell-A1\<close>, \<open>cell-B2\<close>, \<open>cell-B2\<close>, \<open>cell-A1\<close>
  it returns \<open>cell-B2\<close>, the first choice to reach two votes, while the specification's
  consensus and the tally of \<open>checkGroupConsensus\<close> on the same choices are \<open>cell-A1\<close>.
\<close>

theorem reveal_tie_break_divergence:
  "revealConsensus exTieVotes = Some (js ''cell-B2'') \<and>
   resolveConsensus (map snd exTieVotes) = Some (js ''cell-A1'') \<and>
   groupConsensus (map snd exTieVotes) = Some (js ''cell-A1'')"
proof (intro conjI)
  show "revealConsensus exTieVotes = Some (js ''cell-B2'')" by code_simp
  show "resolveConsensus (map snd exTieVotes) = Some (js ''cell-A1'')" by code_simp
  show "groupConsensus (map snd exTieVotes) = Some (js ''cell-A1'')" by code_simp
qed

end
